theory Spec2Isabelle
  imports Complex_Main "HOL-Library.Word" "HOL-Library.Char_ord" "HOL-Library.List_Lexorder"
begin

section \<open>The JSON value model of jsonview.cpp\<close>

text \<open>
  The JSON core of \<^verbatim>\<open>library/forms/jsonview.cpp\<close>: the value model
  (\<^verbatim>\<open>JsonValue\<close>, \<^verbatim>\<open>JsonObject\<close>, \<^verbatim>\<open>JsonArray\<close>), the tokenizer
  (\<^verbatim>\<open>JsonReader::scan\<close>), the token parser (\<^verbatim>\<open>JsonReader::parse\<close>) and the
  serializer (\<^verbatim>\<open>JsonWriter\<close>).

  Conventions of the embedding:
  \<^item> a C++ exception is a value of type \<open>error\<close>; a function that can throw returns
    \<open>error + 'a\<close>, and a function that mutates an argument passed by reference returns
    the argument as it is when the function returns or throws;
  \<^item> \<^verbatim>\<open>char\<close> is \<open>char\<close> (8 bits), \<^verbatim>\<open>std::string\<close> is \<open>string\<close>;
  \<^item> \<^verbatim>\<open>int\<close> is \<open>32 word\<close> (read by \<open>sint\<close>), \<^verbatim>\<open>int64_t\<close> and \<^verbatim>\<open>uint64_t\<close> and
    \<^verbatim>\<open>size_t\<close> are \<open>64 word\<close>;
  \<^item> a \<^verbatim>\<open>double\<close> is modelled by the rational number it denotes. Rounding, infinities
    and NaN are outside the model; the numbers that occur in the examples below (small
    integers and 7/2) are exactly representable.
\<close>

datatype DataType =
  VInt | VBoolean | VString | VDouble | VInt64 | VUint64 | VObject | VArray | VEmpty

text \<open>
  \<^verbatim>\<open>std::out_of_range\<close> carries a message. The three origins that occur are kept apart:
  the explicit check of \<^verbatim>\<open>JsonArray::at\<close> ("Index '%lu' is out of range."), the check
  of the container's own \<^verbatim>\<open>at\<close>, and \<^verbatim>\<open>JsonObject::get\<close>.
\<close>

datatype out_of_range = IndexOutOfRange "64 word" | ContainerAt | NoElementFound string

datatype error =
    ParserException string
  | BadCast
  | OutOfRange out_of_range

text \<open>
  \<^verbatim>\<open>JsonValue\<close> holds all payload fields at once, and the type tag. \<^verbatim>\<open>JsonObject\<close>
  wraps an ordered map from \<^verbatim>\<open>std::string\<close> to \<^verbatim>\<open>JsonValue\<close> (by its uses and by the
  spec, a \<^verbatim>\<open>std::map\<close>): an association list that \<open>object_insert\<close> keeps sorted by
  key, without duplicates. \<^verbatim>\<open>JsonArray\<close> wraps a sequence of \<^verbatim>\<open>JsonValue\<close>.
\<close>

datatype JsonValue =
    JsonValue (m_double: rat) (m_integer64: "64 word") (m_uint64: "64 word") (m_bool: bool)
      (m_string: string) (m_object: JsonObject) (m_array: JsonArray) (m_type: DataType)
and JsonObject = JsonObject (o_data: "(string \<times> JsonValue) list")
and JsonArray = JsonArray (a_data: "JsonValue list")

subsection \<open>JsonObject\<close>

definition JsonObject_default :: JsonObject where
  "JsonObject_default = JsonObject []"

definition object_size :: "JsonObject \<Rightarrow> nat" where
  "object_size obj = length (o_data obj)"

definition object_empty :: "JsonObject \<Rightarrow> bool" where
  "object_empty obj = (o_data obj = [])"

text \<open>\<^verbatim>\<open>find(key)\<close>: the entry, or \<open>None\<close> for \<^verbatim>\<open>end()\<close>.\<close>

definition object_find :: "JsonObject \<Rightarrow> string \<Rightarrow> JsonValue option" where
  "object_find obj key = map_of (o_data obj) key"

text \<open>
  \<^verbatim>\<open>_data[key] = value\<close> on the ordered map: an existing key keeps its place and gets
  the new value, a new key goes before the first greater key. \<^verbatim>\<open>std::string\<close> compares
  lexicographically by unsigned character value, as \<open><\<close> on \<open>string\<close> does here.
\<close>

fun map_assign :: "string \<Rightarrow> JsonValue \<Rightarrow> (string \<times> JsonValue) list \<Rightarrow> (string \<times> JsonValue) list" where
  "map_assign key val [] = [(key, val)]"
| "map_assign key val ((k, v) # rest) =
     (if key = k then (k, val) # rest
      else if key < k then (key, val) # (k, v) # rest
      else (k, v) # map_assign key val rest)"

definition object_insert :: "string \<Rightarrow> JsonValue \<Rightarrow> JsonObject \<Rightarrow> JsonObject" where
  "object_insert key val obj = JsonObject (map_assign key val (o_data obj))"

definition object_get :: "JsonObject \<Rightarrow> string \<Rightarrow> error + JsonValue" where
  "object_get obj key =
     (case map_of (o_data obj) key of
        None \<Rightarrow> Inl (OutOfRange (NoElementFound key))
      | Some v \<Rightarrow> Inr v)"

subsection \<open>JsonArray\<close>

definition JsonArray_default :: JsonArray where
  "JsonArray_default = JsonArray []"

definition array_size :: "JsonArray \<Rightarrow> nat" where
  "array_size arr = length (a_data arr)"

definition array_empty :: "JsonArray \<Rightarrow> bool" where
  "array_empty arr = (a_data arr = [])"

definition pushBack :: "JsonValue \<Rightarrow> JsonArray \<Rightarrow> JsonArray" where
  "pushBack val arr = JsonArray (a_data arr @ [val])"

text \<open>
  The declaration of \<^verbatim>\<open>_data\<close> is in \<^verbatim>\<open>jsonview.h\<close>, which is not among the sources;
  by its uses (\<^verbatim>\<open>at\<close>, \<^verbatim>\<open>operator[]\<close>, \<^verbatim>\<open>push_back\<close>, \<^verbatim>\<open>insert\<close>, \<^verbatim>\<open>erase\<close>) it is a
  standard sequence container. The \<^verbatim>\<open>at\<close> of such a container throws
  \<^verbatim>\<open>std::out_of_range\<close> unless \<^verbatim>\<open>pos < size()\<close>.
\<close>

definition vector_at :: "'a list \<Rightarrow> 64 word \<Rightarrow> error + 'a" where
  "vector_at xs pos =
     (if unat pos < length xs then Inr (xs ! unat pos) else Inl (OutOfRange ContainerAt))"

text \<open>
  \<^verbatim>\<open>JsonArray::at\<close> (both overloads have the same body):
  \<^verbatim>\<open>if (pos > _data.size()) throw std::out_of_range(...); return _data.at(pos);\<close>
\<close>

definition array_at :: "JsonArray \<Rightarrow> 64 word \<Rightarrow> error + JsonValue" where
  "array_at arr pos =
     (if unat pos > length (a_data arr) then Inl (OutOfRange (IndexOutOfRange pos))
      else vector_at (a_data arr) pos)"

subsection \<open>JsonValue: constructors\<close>

text \<open>The default constructor: all numeric fields 0, the tag \<^verbatim>\<open>VEmpty\<close>.\<close>

definition JsonValue_default :: JsonValue where
  "JsonValue_default = JsonValue 0 0 0 False [] JsonObject_default JsonArray_default VEmpty"

text \<open>
  \<^verbatim>\<open>JsonValue(const std::string &val)\<close> has no initialiser for \<^verbatim>\<open>_integer64\<close> and
  \<^verbatim>\<open>_uint64\<close>: they hold whatever the storage held, here the two extra arguments.
\<close>

definition JsonValue_string :: "64 word \<Rightarrow> 64 word \<Rightarrow> string \<Rightarrow> JsonValue" where
  "JsonValue_string junk1 junk2 val =
     JsonValue 0 junk1 junk2 False val JsonObject_default JsonArray_default VString"

definition JsonValue_bool :: "bool \<Rightarrow> JsonValue" where
  "JsonValue_bool val = JsonValue 0 0 0 val [] JsonObject_default JsonArray_default VBoolean"

text \<open>
  \<^verbatim>\<open>JsonValue::JsonValue(int val) : _double(0), _integer64(0), _uint64(0), _bool(false),
  _type(VInt) {}\<close>: the argument is not stored anywhere.
\<close>

definition JsonValue_int :: "32 word \<Rightarrow> JsonValue" where
  "JsonValue_int val = JsonValue 0 0 0 False [] JsonObject_default JsonArray_default VInt"

definition JsonValue_int64 :: "64 word \<Rightarrow> JsonValue" where
  "JsonValue_int64 val = JsonValue 0 val 0 False [] JsonObject_default JsonArray_default VInt64"

definition JsonValue_uint64 :: "64 word \<Rightarrow> JsonValue" where
  "JsonValue_uint64 val = JsonValue 0 0 val False [] JsonObject_default JsonArray_default VUint64"

definition JsonValue_double :: "rat \<Rightarrow> JsonValue" where
  "JsonValue_double val = JsonValue val 0 0 False [] JsonObject_default JsonArray_default VDouble"

definition JsonValue_object :: "JsonObject \<Rightarrow> JsonValue" where
  "JsonValue_object val = JsonValue 0 0 0 False [] val JsonArray_default VObject"

definition JsonValue_array :: "JsonArray \<Rightarrow> JsonValue" where
  "JsonValue_array val = JsonValue 0 0 0 False [] JsonObject_default val VArray"

subsection \<open>JsonValue: getters and setters\<close>

definition getType :: "JsonValue \<Rightarrow> DataType" where
  "getType v = m_type v"

definition getDouble :: "JsonValue \<Rightarrow> rat" where
  "getDouble v = m_double v"

text \<open>
  \<^verbatim>\<open>static_cast<int>(d)\<close> truncates towards zero. C++ defines the result only when the
  truncated value fits in \<^verbatim>\<open>int\<close>; outside that range the model wraps.
\<close>

definition double_to_int :: "rat \<Rightarrow> 32 word" where
  "double_to_int d = word_of_int (if 0 \<le> d then \<lfloor>d\<rfloor> else \<lceil>d\<rceil>)"

text \<open>\<^verbatim>\<open>getInt\<close> reads \<^verbatim>\<open>_double\<close>: there is no \<^verbatim>\<open>int\<close> field.\<close>

definition getInt :: "JsonValue \<Rightarrow> 32 word" where
  "getInt v = double_to_int (m_double v)"

definition getInt64 :: "JsonValue \<Rightarrow> 64 word" where
  "getInt64 v = m_integer64 v"

definition getUint64 :: "JsonValue \<Rightarrow> 64 word" where
  "getUint64 v = m_uint64 v"

definition getBool :: "JsonValue \<Rightarrow> bool" where
  "getBool v = m_bool v"

definition getString :: "JsonValue \<Rightarrow> string" where
  "getString v = m_string v"

definition getObject :: "JsonValue \<Rightarrow> JsonObject" where
  "getObject v = m_object v"

definition getArray :: "JsonValue \<Rightarrow> JsonArray" where
  "getArray v = m_array v"

fun setNumber :: "rat \<Rightarrow> JsonValue \<Rightarrow> JsonValue" where
  "setNumber val (JsonValue d i u b s ob ar t) = JsonValue val i u b s ob ar t"

fun setInt64 :: "64 word \<Rightarrow> JsonValue \<Rightarrow> JsonValue" where
  "setInt64 val (JsonValue d i u b s ob ar t) = JsonValue d val u b s ob ar t"

fun setUint64 :: "64 word \<Rightarrow> JsonValue \<Rightarrow> JsonValue" where
  "setUint64 val (JsonValue d i u b s ob ar t) = JsonValue d i val b s ob ar t"

fun setBool :: "bool \<Rightarrow> JsonValue \<Rightarrow> JsonValue" where
  "setBool val (JsonValue d i u b s ob ar t) = JsonValue d i u val s ob ar t"

fun setString :: "string \<Rightarrow> JsonValue \<Rightarrow> JsonValue" where
  "setString val (JsonValue d i u b s ob ar t) = JsonValue d i u b val ob ar t"

fun setObject :: "JsonObject \<Rightarrow> JsonValue \<Rightarrow> JsonValue" where
  "setObject val (JsonValue d i u b s ob ar t) = JsonValue d i u b s val ar t"

fun setArray :: "JsonArray \<Rightarrow> JsonValue \<Rightarrow> JsonValue" where
  "setArray val (JsonValue d i u b s ob ar t) = JsonValue d i u b s ob val t"

fun setType :: "DataType \<Rightarrow> JsonValue \<Rightarrow> JsonValue" where
  "setType ty (JsonValue d i u b s ob ar t) = JsonValue d i u b s ob ar ty"

subsection \<open>JsonValue: conversion operators\<close>

text \<open>Each one is \<^verbatim>\<open>if (getType() != V...) throw std::bad_cast(); return get...();\<close>\<close>

definition operator_JsonObject :: "JsonValue \<Rightarrow> error + JsonObject" where
  "operator_JsonObject v = (if getType v \<noteq> VObject then Inl BadCast else Inr (getObject v))"

definition operator_JsonArray :: "JsonValue \<Rightarrow> error + JsonArray" where
  "operator_JsonArray v = (if getType v \<noteq> VArray then Inl BadCast else Inr (getArray v))"

definition operator_int :: "JsonValue \<Rightarrow> error + 32 word" where
  "operator_int v = (if getType v \<noteq> VInt then Inl BadCast else Inr (getInt v))"

definition operator_double :: "JsonValue \<Rightarrow> error + rat" where
  "operator_double v = (if getType v \<noteq> VDouble then Inl BadCast else Inr (getDouble v))"

definition operator_int64 :: "JsonValue \<Rightarrow> error + 64 word" where
  "operator_int64 v = (if getType v \<noteq> VInt64 then Inl BadCast else Inr (getInt64 v))"

definition operator_uint64 :: "JsonValue \<Rightarrow> error + 64 word" where
  "operator_uint64 v = (if getType v \<noteq> VUint64 then Inl BadCast else Inr (getUint64 v))"

definition operator_bool :: "JsonValue \<Rightarrow> error + bool" where
  "operator_bool v = (if getType v \<noteq> VBoolean then Inl BadCast else Inr (getBool v))"

definition operator_string :: "JsonValue \<Rightarrow> error + string" where
  "operator_string v = (if getType v \<noteq> VString then Inl BadCast else Inr (getString v))"

section \<open>The tokenizer\<close>

datatype JsonTokenType =
    JsonTokenString | JsonTokenNumber | JsonTokenBoolean | JsonTokenEmpty
  | JsonTokenObjectStart | JsonTokenObjectEnd | JsonTokenArrayStart | JsonTokenArrayEnd
  | JsonTokenNext | JsonTokenAssign

record JsonToken =
  tok_type :: JsonTokenType
  tok_value :: string

definition mkToken :: "JsonTokenType \<Rightarrow> string \<Rightarrow> JsonToken" where
  "mkToken ty val = \<lparr>tok_type = ty, tok_value = val\<rparr>"

text \<open>
  The scanning state of a \<^verbatim>\<open>JsonReader\<close>: the text, the position in it and the tokens
  found so far. The position never exceeds the length of the text, so \<open>nat\<close> stands for
  \<^verbatim>\<open>size_t\<close> here.
\<close>

record JsonReader =
  jsonText :: string
  actualPos :: nat
  tokens :: "JsonToken list"

definition JsonReader_init :: "string \<Rightarrow> JsonReader" where
  "JsonReader_init val = \<lparr>jsonText = val, actualPos = 0, tokens = []\<rparr>"

abbreviation dquote :: char where "dquote \<equiv> CHR 0x22"
abbreviation backslash :: char where "backslash \<equiv> CHR 0x5C"

definition peek :: "JsonReader \<Rightarrow> char" where
  "peek r = (if actualPos r < length (jsonText r) then jsonText r ! actualPos r else CHR 0x00)"

definition eos :: "JsonReader \<Rightarrow> bool" where
  "eos r = (actualPos r = length (jsonText r))"

definition isWhiteSpace :: "char \<Rightarrow> bool" where
  "isWhiteSpace c = (c = CHR '' '' \<or> c = CHR 0x09 \<or> c = CHR 0x0A \<or> c = CHR 0x0D)"

definition moveAhead :: "JsonReader \<Rightarrow> JsonReader" where
  "moveAhead r = r\<lparr>actualPos := min (actualPos r + 1) (length (jsonText r))\<rparr>"

text \<open>
  What is left to read. It decreases with every \<open>moveAhead\<close> before the end of the text,
  also from a position beyond the end (which the reader never reaches).
\<close>

definition remaining :: "JsonReader \<Rightarrow> nat" where
  "remaining r =
     (if actualPos r > length (jsonText r) then 1 else length (jsonText r) - actualPos r)"

lemma remaining_moveAhead: "\<not> eos r \<Longrightarrow> remaining (moveAhead r) < remaining r"
  by (auto simp: remaining_def moveAhead_def eos_def min_def)

lemma remaining_moveAhead2:
  "\<not> eos r \<Longrightarrow> \<not> eos (moveAhead r) \<Longrightarrow> remaining (moveAhead (moveAhead r)) < remaining r"
  using remaining_moveAhead [of r] remaining_moveAhead [of "moveAhead r"] by simp

lemma peek_not_eos: "peek r \<noteq> CHR 0x00 \<Longrightarrow> \<not> eos r"
  by (auto simp: peek_def eos_def)

text \<open>\<^verbatim>\<open>while (isWhiteSpace(peek())) moveAhead();\<close>\<close>

function eatWhitespace :: "JsonReader \<Rightarrow> JsonReader" where
  "eatWhitespace r = (if isWhiteSpace (peek r) then eatWhitespace (moveAhead r) else r)"
  by pat_completeness auto
termination
proof (relation "measure remaining")
  show "wf (measure remaining)" by simp
next
  fix r assume "isWhiteSpace (peek r)"
  then have "\<not> eos r"
    by (intro peek_not_eos) (auto simp: isWhiteSpace_def)
  then show "(moveAhead r, r) \<in> measure remaining"
    by (simp add: remaining_moveAhead)
qed

declare eatWhitespace.simps [simp del]

text \<open>
  \<^verbatim>\<open>match(text)\<close>: compares the text with the input at the position, moving ahead while
  the characters agree; the empty text never matches.
\<close>

fun match_loop :: "string \<Rightarrow> JsonReader \<Rightarrow> bool \<times> JsonReader" where
  "match_loop [] r = (True, r)"
| "match_loop (c # cs) r =
     (if eos r \<or> c \<noteq> peek r then (False, r) else match_loop cs (moveAhead r))"

definition match :: "string \<Rightarrow> JsonReader \<Rightarrow> bool \<times> JsonReader" where
  "match text r = (case match_loop text r of (m, r') \<Rightarrow> (text \<noteq> [] \<and> m, r'))"

text \<open>
  The loop of \<^verbatim>\<open>getJsonString\<close>, with the string read so far. After a backslash that is
  not the last character of the input, the next character selects the escape.
\<close>

function getJsonString_loop :: "JsonReader \<Rightarrow> string \<Rightarrow> error + (string \<times> JsonReader)" where
  "getJsonString_loop r str =
     (if \<not> eos r \<and> peek r \<noteq> dquote then
        (let currentChar = peek r; r1 = moveAhead r in
         if currentChar = backslash \<and> \<not> eos r1 then
           (let currentChar = peek r1; r2 = moveAhead r1 in
            if currentChar = CHR ''/'' \<or> currentChar = dquote \<or> currentChar = backslash
              then getJsonString_loop r2 (str @ [currentChar])
            else if currentChar = CHR ''b'' then getJsonString_loop r2 (str @ [CHR 0x08])
            else if currentChar = CHR ''f'' then getJsonString_loop r2 (str @ [CHR 0x0C])
            else if currentChar = CHR ''n'' then getJsonString_loop r2 (str @ [CHR 0x0A])
            else if currentChar = CHR ''r'' then getJsonString_loop r2 (str @ [CHR 0x0D])
            else if currentChar = CHR ''t'' then getJsonString_loop r2 (str @ [CHR 0x09])
            else Inl (ParserException (''Unrecognized escape sequence: '' @ [backslash, currentChar])))
         else getJsonString_loop r1 (str @ [currentChar]))
      else Inr (str, r))"
  by pat_completeness auto
termination
  by (relation "measure (\<lambda>(r, str). remaining r)")
     (auto simp: remaining_moveAhead remaining_moveAhead2)

declare getJsonString_loop.simps [simp del]

definition getJsonString :: "JsonReader \<Rightarrow> error + (string \<times> JsonReader)" where
  "getJsonString r =
     (case getJsonString_loop (moveAhead r) [] of
        Inl e \<Rightarrow> Inl e
      | Inr (str, r1) \<Rightarrow>
          (case match [dquote] r1 of
             (m, r2) \<Rightarrow>
               if \<not> m then Inl (ParserException (''Expected: '' @ [dquote, CHR '' '']))
               else Inr (str, r2)))"

text \<open>
  \<^verbatim>\<open>isspace\<close> of the C library, in the "C" locale: space, \<^verbatim>\<open>\t \n \v \f \r\<close>.
\<close>

definition isspace :: "char \<Rightarrow> bool" where
  "isspace c = (c = CHR '' '' \<or> c = CHR 0x09 \<or> c = CHR 0x0A \<or> c = CHR 0x0B
                \<or> c = CHR 0x0C \<or> c = CHR 0x0D)"

text \<open>
  The loop of \<^verbatim>\<open>checkJsonEmpty\<close>: at most \<open>n\<close> characters, up to the end of the input or
  the first space.
\<close>

fun checkJsonEmpty_loop :: "nat \<Rightarrow> JsonReader \<Rightarrow> string \<Rightarrow> string \<times> JsonReader" where
  "checkJsonEmpty_loop 0 r emptyString = (emptyString, r)"
| "checkJsonEmpty_loop (Suc n) r emptyString =
     (if eos r then (emptyString, r)
      else let ch = peek r in
        if isspace ch then (emptyString, r)
        else checkJsonEmpty_loop n (moveAhead r) (emptyString @ [ch]))"

definition checkJsonEmpty :: "string \<Rightarrow> JsonReader \<Rightarrow> error + JsonReader" where
  "checkJsonEmpty text r =
     (case checkJsonEmpty_loop (length text) r [] of
        (emptyString, r1) \<Rightarrow>
          if emptyString \<noteq> text then Inl (ParserException (''Unexpected token: '' @ emptyString))
          else Inr r1)"

text \<open>The loop of \<^verbatim>\<open>getJsonBoolean\<close>: at most \<open>n\<close> characters, up to the end of the input.\<close>

fun getJsonBoolean_loop :: "nat \<Rightarrow> JsonReader \<Rightarrow> string \<Rightarrow> string \<times> JsonReader" where
  "getJsonBoolean_loop 0 r boolString = (boolString, r)"
| "getJsonBoolean_loop (Suc n) r boolString =
     (if eos r then (boolString, r)
      else getJsonBoolean_loop n (moveAhead r) (boolString @ [peek r]))"

text \<open>
  The test before the \<^verbatim>\<open>throw\<close> is
  \<^verbatim>\<open>boolString == "true" && boolString == "false"\<close>, as in the source.
\<close>

definition getJsonBoolean :: "JsonReader \<Rightarrow> error + (string \<times> JsonReader)" where
  "getJsonBoolean r =
     (let size = (if peek r = CHR ''f'' then 5 else 4) in
      case getJsonBoolean_loop size r [] of
        (boolString, r1) \<Rightarrow>
          if boolString = ''true'' \<and> boolString = ''false''
          then Inl (ParserException (''Unexpected token: '' @ boolString))
          else Inr (boolString, r1))"

definition numericChars :: "char set" where
  "numericChars = set ''0123456789.eE-+''"

function getJsonNumber_loop :: "JsonReader \<Rightarrow> string \<Rightarrow> string \<times> JsonReader" where
  "getJsonNumber_loop r number =
     (if \<not> eos r \<and> peek r \<in> numericChars
      then getJsonNumber_loop (moveAhead r) (number @ [peek r])
      else (number, r))"
  by pat_completeness auto
termination
  by (relation "measure (\<lambda>(r, number). remaining r)") (auto simp: remaining_moveAhead)

declare getJsonNumber_loop.simps [simp del]

definition getJsonNumber :: "JsonReader \<Rightarrow> string \<times> JsonReader" where
  "getJsonNumber r = getJsonNumber_loop r []"

text \<open>
  One round of the loop of \<^verbatim>\<open>scan\<close>: skip white space, read one token by its first
  character and append it. At the character 0 (which \<open>peek\<close> also returns at the end of
  the text) nothing is read, and a token of type \<^verbatim>\<open>JsonTokenEmpty\<close> with empty text is
  appended.
\<close>

definition push_token :: "JsonTokenType \<Rightarrow> string \<Rightarrow> JsonReader \<Rightarrow> JsonReader" where
  "push_token ty val r = r\<lparr>tokens := tokens r @ [mkToken ty val]\<rparr>"

definition scan_step :: "JsonReader \<Rightarrow> error + JsonReader" where
  "scan_step r0 =
     (let r = eatWhitespace r0; chr = peek r in
      if chr = CHR ''{'' then Inr (push_token JsonTokenObjectStart [chr] (moveAhead r))
      else if chr = CHR ''}'' then Inr (push_token JsonTokenObjectEnd [chr] (moveAhead r))
      else if chr = CHR ''['' then Inr (push_token JsonTokenArrayStart [chr] (moveAhead r))
      else if chr = CHR '']'' then Inr (push_token JsonTokenArrayEnd [chr] (moveAhead r))
      else if chr = CHR '','' then Inr (push_token JsonTokenNext [chr] (moveAhead r))
      else if chr = CHR '':'' then Inr (push_token JsonTokenAssign [chr] (moveAhead r))
      else if chr = dquote then
        (case getJsonString r of
           Inl e \<Rightarrow> Inl e
         | Inr (val, r1) \<Rightarrow> Inr (push_token JsonTokenString val r1))
      else if chr \<in> set ''-0123456789'' then
        (case getJsonNumber r of (val, r1) \<Rightarrow> Inr (push_token JsonTokenNumber val r1))
      else if chr = CHR ''t'' \<or> chr = CHR ''f'' then
        (case getJsonBoolean r of
           Inl e \<Rightarrow> Inl e
         | Inr (val, r1) \<Rightarrow> Inr (push_token JsonTokenBoolean val r1))
      else if chr = CHR ''n'' then
        (case checkJsonEmpty ''null'' r of
           Inl e \<Rightarrow> Inl e
         | Inr r1 \<Rightarrow> Inr (push_token JsonTokenEmpty [] r1))
      else if chr = CHR ''u'' then
        (case checkJsonEmpty ''undefined'' r of
           Inl e \<Rightarrow> Inl e
         | Inr r1 \<Rightarrow> Inr (push_token JsonTokenEmpty [] r1))
      else if chr = CHR 0x00 then Inr (push_token JsonTokenEmpty [] r)
      else Inl (ParserException (''Unexpected start sequence: '' @ [chr])))"

text \<open>
  \<^verbatim>\<open>while (!eos()) { ... }\<close>. A character 0 inside the text is not consumed by its
  round, so the loop need not end: the result is \<open>None\<close> when \<^verbatim>\<open>scan\<close> does not return,
  \<open>Some (Inl e)\<close> when it throws \<open>e\<close>, and \<open>Some (Inr r)\<close> when it returns in state \<open>r\<close>.
\<close>

partial_function (option) scan :: "JsonReader \<Rightarrow> (error + JsonReader) option" where
  "scan r =
     (if \<not> eos r then
        (case scan_step r of
           Inl e \<Rightarrow> Some (Inl e)
         | Inr r1 \<Rightarrow> scan r1)
      else Some (Inr r))"

declare scan.simps [code]

section \<open>The parser\<close>

text \<open>
  The parser reads the tokens through \<^verbatim>\<open>_tokenIterator\<close>, up to \<^verbatim>\<open>_tokenEnd\<close>. The
  iterator is modelled by the list of the tokens from its position to the end:
  \<^verbatim>\<open>_tokenIterator == _tokenEnd\<close> is \<open>it = []\<close>, \<^verbatim>\<open>*_tokenIterator\<close> is \<open>hd it\<close> and
  \<^verbatim>\<open>++_tokenIterator\<close> is \<open>tl it\<close>.
\<close>

definition processToken ::
  "JsonTokenType \<Rightarrow> bool \<Rightarrow> bool \<Rightarrow> JsonToken list \<Rightarrow> error + (bool \<times> JsonToken list)" where
  "processToken ty skip mustMatch it =
     (let ret = (it \<noteq> [] \<and> tok_type (hd it) = ty) in
      if \<not> ret \<and> mustMatch then
        Inl (ParserException
          (if it \<noteq> [] then ''Unexpected token: '' @ tok_value (hd it)
           else ''Not compleated json data''))
      else if skip \<and> ret then Inr (tl it \<noteq> [], tl it)
      else Inr (ret, it))"

subsection \<open>Numbers\<close>

definition isdigit :: "char \<Rightarrow> bool" where
  "isdigit c = (CHR ''0'' \<le> c \<and> c \<le> CHR ''9'')"

definition digits_value :: "string \<Rightarrow> nat" where
  "digits_value ds = foldl (\<lambda>n c. 10 * n + (of_char c - 48)) 0 ds"

definition read_exponent :: "string \<Rightarrow> int option" where
  "read_exponent s =
     (case s of
        [] \<Rightarrow> Some 0
      | c # t \<Rightarrow>
          if c = CHR ''e'' \<or> c = CHR ''E'' then
            (let neg = (t \<noteq> [] \<and> hd t = CHR ''-'');
                 t1 = (if t \<noteq> [] \<and> (hd t = CHR ''-'' \<or> hd t = CHR ''+'') then tl t else t);
                 ds = takeWhile isdigit t1
             in if ds = [] then None
                else Some (if neg then - int (digits_value ds) else int (digits_value ds)))
          else Some 0)"

text \<open>
  \<^verbatim>\<open>buffer << text; double number = 0; buffer >> number;\<close> of the C++ standard library,
  on a token of \<open>getJsonNumber\<close>. The extraction reads the longest prefix that is a
  decimal literal: an optional sign, digits with an optional fraction, and an optional
  exponent; the value is 0 when there is no such prefix. The rest of the text is ignored.
\<close>

definition stream_extract_double :: "string \<Rightarrow> rat" where
  "stream_extract_double text =
     (let neg = (text \<noteq> [] \<and> hd text = CHR ''-'');
          s1 = (if text \<noteq> [] \<and> (hd text = CHR ''-'' \<or> hd text = CHR ''+'') then tl text else text);
          ip = takeWhile isdigit s1;
          s2 = dropWhile isdigit s1;
          hasfrac = (s2 \<noteq> [] \<and> hd s2 = CHR ''.'');
          fp = (if hasfrac then takeWhile isdigit (tl s2) else []);
          s3 = (if hasfrac then dropWhile isdigit (tl s2) else s2)
      in if ip = [] \<and> fp = [] then 0
         else
           (case read_exponent s3 of
              None \<Rightarrow> 0
            | Some ex \<Rightarrow>
                (let m = of_nat (digits_value ip) + of_nat (digits_value fp) / 10 ^ length fp;
                     x = (if 0 \<le> ex then m * 10 ^ nat ex else m / 10 ^ nat (- ex))
                 in if neg then - x else x)))"

text \<open>
  \<^verbatim>\<open>modf\<close> of the C library: the fractional part (returned) and the integral part
  (stored through the pointer), both with the sign of the argument.
\<close>

definition modf :: "rat \<Rightarrow> rat \<times> rat" where
  "modf x = (let intpart = of_int (if 0 \<le> x then \<lfloor>x\<rfloor> else \<lceil>x\<rceil>) in (x - intpart, intpart))"

subsection \<open>The productions\<close>

text \<open>
  Each production takes the iterator and the value it fills by reference. It returns that
  value as the production leaves it, with the new iterator or the exception thrown. The
  productions for one token are only called at a token (\<open>it \<noteq> []\<close>).
\<close>

fun parseNumber :: "JsonToken list \<Rightarrow> JsonValue \<Rightarrow> JsonValue \<times> JsonToken list" where
  "parseNumber (tok # rest) val =
     (let number = stream_extract_double (tok_value tok);
          val1 = (if fst (modf number) = 0 then setType VInt val else setType VDouble val)
      in (setNumber number val1, rest))"

fun parseBoolean :: "JsonToken list \<Rightarrow> JsonValue \<Rightarrow> JsonValue \<times> JsonToken list" where
  "parseBoolean (tok # rest) val =
     (let isBool = (if tok_value tok = ''true'' then True else False)
      in (setType VBoolean (setBool isBool val), rest))"

fun parseString :: "JsonToken list \<Rightarrow> JsonValue \<Rightarrow> JsonValue \<times> JsonToken list" where
  "parseString (tok # rest) val = (setType VString (setString (tok_value tok) val), rest)"

fun parseEmpty :: "JsonToken list \<Rightarrow> JsonValue \<Rightarrow> JsonValue \<times> JsonToken list" where
  "parseEmpty (tok # rest) val = (setType VEmpty val, rest)"

text \<open>
  \<open>parse_value\<close> is \<^verbatim>\<open>parse(JsonValue&)\<close> and \<open>parse_object\<close> is \<^verbatim>\<open>parse(JsonObject&)\<close>;
  \<open>parse_object_loop\<close> and \<open>parseArray_loop\<close> are the \<^verbatim>\<open>while (go)\<close> loops with the
  statement after them. The first value of \<^verbatim>\<open>go\<close> compares the token after the opening
  bracket with \<^verbatim>\<open>JsonTokenObjectStart\<close> (with \<^verbatim>\<open>JsonTokenArrayStart\<close> in
  \<^verbatim>\<open>parseArray\<close>), as in the source.
\<close>

function parse_value :: "JsonToken list \<Rightarrow> JsonValue \<Rightarrow> JsonValue \<times> (error + JsonToken list)"
  and parseObject :: "JsonToken list \<Rightarrow> JsonValue \<Rightarrow> JsonValue \<times> (error + JsonToken list)"
  and parse_object :: "JsonToken list \<Rightarrow> JsonObject \<Rightarrow> JsonObject \<times> (error + JsonToken list)"
  and parse_object_loop ::
    "bool \<Rightarrow> JsonToken list \<Rightarrow> JsonObject \<Rightarrow> JsonObject \<times> (error + JsonToken list)"
  and parseArray :: "JsonToken list \<Rightarrow> JsonValue \<Rightarrow> JsonValue \<times> (error + JsonToken list)"
  and parseArray_loop ::
    "bool \<Rightarrow> JsonToken list \<Rightarrow> JsonArray \<Rightarrow> JsonArray \<times> (error + JsonToken list)"
where
  "parse_value it val =
     (if it = [] then (val, Inl (ParserException ''Unexpected json data end.''))
      else
        (let type = tok_type (hd it) in
         if type = JsonTokenString then (case parseString it val of (v, it1) \<Rightarrow> (v, Inr it1))
         else if type = JsonTokenNumber then (case parseNumber it val of (v, it1) \<Rightarrow> (v, Inr it1))
         else if type = JsonTokenBoolean then (case parseBoolean it val of (v, it1) \<Rightarrow> (v, Inr it1))
         else if type = JsonTokenEmpty then (case parseEmpty it val of (v, it1) \<Rightarrow> (v, Inr it1))
         else if type = JsonTokenObjectStart then parseObject it val
         else if type = JsonTokenArrayStart then parseArray it val
         else (val, Inl (ParserException (''Unexpected token: '' @ tok_value (hd it))))))"
| "parseObject it val =
     (let val1 = setType VObject val in
      case parse_object it (getObject val1) of (obj, res) \<Rightarrow> (setObject obj val1, res))"
| "parse_object it obj =
     (case processToken JsonTokenObjectStart True True it of
        Inl e \<Rightarrow> (obj, Inl e)
      | Inr (b, it1) \<Rightarrow>
          parse_object_loop (b \<and> tok_type (hd it1) \<noteq> JsonTokenObjectStart) it1 obj)"
| "parse_object_loop go it obj =
     (if go then
        (case processToken JsonTokenString False True it of
           Inl e \<Rightarrow> (obj, Inl e)
         | Inr (b0, it0) \<Rightarrow>
             (let name = tok_value (hd it0); it1 = tl it0 in
              case processToken JsonTokenAssign True True it1 of
                Inl e \<Rightarrow> (obj, Inl e)
              | Inr (b2, it2) \<Rightarrow>
                  (case parse_value it2 JsonValue_default of
                     (val, Inl e) \<Rightarrow> (obj, Inl e)
                   | (val, Inr it3) \<Rightarrow>
                       if object_find obj name \<noteq> None
                       then (obj, Inl (ParserException (''Duplicate member: '' @ name)))
                       else
                         (let obj1 = object_insert name val obj in
                          case processToken JsonTokenNext True False it3 of
                            Inl e \<Rightarrow> (obj1, Inl e)
                          | Inr (go1, it4) \<Rightarrow> parse_object_loop go1 it4 obj1))))
      else
        (case processToken JsonTokenObjectEnd True True it of
           Inl e \<Rightarrow> (obj, Inl e)
         | Inr (b, it1) \<Rightarrow> (obj, Inr it1)))"
| "parseArray it val =
     (let val1 = setType VArray val in
      case processToken JsonTokenArrayStart True True it of
        Inl e \<Rightarrow> (val1, Inl e)
      | Inr (b, it1) \<Rightarrow>
          (case parseArray_loop (b \<and> tok_type (hd it1) \<noteq> JsonTokenArrayStart) it1 (getArray val1) of
             (arr, res) \<Rightarrow> (setArray arr val1, res)))"
| "parseArray_loop go it arr =
     (if go then
        (case parse_value it JsonValue_default of
           (val, Inl e) \<Rightarrow> (arr, Inl e)
         | (val, Inr it1) \<Rightarrow>
             (let arr1 = pushBack val arr in
              case processToken JsonTokenNext True False it1 of
                Inl e \<Rightarrow> (arr1, Inl e)
              | Inr (go1, it2) \<Rightarrow> parseArray_loop go1 it2 arr1))
      else
        (case processToken JsonTokenArrayEnd True True it of
           Inl e \<Rightarrow> (arr, Inl e)
         | Inr (b, it1) \<Rightarrow> (arr, Inr it1)))"
  by pat_completeness auto

subsection \<open>Termination of the productions\<close>

text \<open>
  A production that returns has moved the iterator forward. This is first shown on the
  domain of the productions, which is then all token lists.
\<close>

definition parse_measure :: "((JsonToken list \<times> JsonValue + JsonToken list \<times> JsonValue + JsonToken list \<times> JsonObject) +
     bool \<times> JsonToken list \<times> JsonObject + JsonToken list \<times> JsonValue + bool \<times> JsonToken list \<times> JsonArray) \<Rightarrow> nat" where
 "parse_measure x = (case x of
     Inl (Inl (it, v)) \<Rightarrow> 4 * length it + 2
   | Inl (Inr (Inl (it, v))) \<Rightarrow> 4 * length it + 1
   | Inl (Inr (Inr (it, ob))) \<Rightarrow> 4 * length it
   | Inr (Inl (go, it, ob)) \<Rightarrow> 4 * length it + 3
   | Inr (Inr (Inl (it, v))) \<Rightarrow> 4 * length it + 1
   | Inr (Inr (Inr (go, it, ar))) \<Rightarrow> 4 * length it + 3)"

lemma processToken_length: "processToken ty skip must it = Inr (b, it') \<Longrightarrow> length it' \<le> length it"
  by (auto simp: processToken_def Let_def split: if_splits)

lemma processToken_skip_must:
  "processToken ty True True it = Inr (b, it') \<Longrightarrow> it \<noteq> [] \<and> it' = tl it"
  by (auto simp: processToken_def Let_def split: if_splits)

lemma processToken_noskip_must:
  "processToken ty False True it = Inr (b, it') \<Longrightarrow> it \<noteq> [] \<and> it' = it"
  by (auto simp: processToken_def Let_def split: if_splits)

lemma parse_single_length:
  "it \<noteq> [] \<Longrightarrow> snd (parseString it val) = tl it"
  "it \<noteq> [] \<Longrightarrow> snd (parseNumber it val) = tl it"
  "it \<noteq> [] \<Longrightarrow> snd (parseBoolean it val) = tl it"
  "it \<noteq> [] \<Longrightarrow> snd (parseEmpty it val) = tl it"
  by (cases it; simp add: Let_def)+

definition consumes :: "JsonToken list \<Rightarrow> 'a \<times> (error + JsonToken list) \<Rightarrow> bool" where
  "consumes it res = (case snd res of Inl e \<Rightarrow> True | Inr it' \<Rightarrow> length it' < length it)"

lemma consumes_Inl [simp]: "consumes it (v, Inl e)"
  by (simp add: consumes_def)

lemma consumes_Inr [simp]: "consumes it (v, Inr it') = (length it' < length it)"
  by (simp add: consumes_def)

lemma consumes_mono: "consumes it1 res \<Longrightarrow> length it1 \<le> length it \<Longrightarrow> consumes it res"
  by (auto simp: consumes_def split: sum.splits)

lemma consumes_fst [simp]: "consumes it (case res of (x, r) \<Rightarrow> (f x, r)) = consumes it res"
  by (cases res) (simp add: consumes_def)

lemma consumes_single [simp]:
  "consumes it (case p of (v, it1) \<Rightarrow> (v, Inr it1)) = (length (snd p) < length it)"
  by (cases p) simp

lemma parse_dom_consumes:
  "parse_value_parseObject_parse_object_parse_object_loop_parseArray_parseArray_loop_dom (Inl (Inl (it, val)))
     \<Longrightarrow> consumes it (parse_value it val)"
  "parse_value_parseObject_parse_object_parse_object_loop_parseArray_parseArray_loop_dom (Inl (Inr (Inl (it, val))))
     \<Longrightarrow> consumes it (parseObject it val)"
  "parse_value_parseObject_parse_object_parse_object_loop_parseArray_parseArray_loop_dom (Inl (Inr (Inr (it, obj))))
     \<Longrightarrow> consumes it (parse_object it obj)"
  "parse_value_parseObject_parse_object_parse_object_loop_parseArray_parseArray_loop_dom (Inr (Inl (go, it, obj)))
     \<Longrightarrow> consumes it (parse_object_loop go it obj)"
  "parse_value_parseObject_parse_object_parse_object_loop_parseArray_parseArray_loop_dom (Inr (Inr (Inl (it, val))))
     \<Longrightarrow> consumes it (parseArray it val)"
  "parse_value_parseObject_parse_object_parse_object_loop_parseArray_parseArray_loop_dom (Inr (Inr (Inr (go, it, arr))))
     \<Longrightarrow> consumes it (parseArray_loop go it arr)"
proof (induct rule: parse_value_parseObject_parse_object_parse_object_loop_parseArray_parseArray_loop.pinduct)
  case (1 it val)
  show ?case
  proof (cases "it = []")
    case True
    with 1(1) show ?thesis by (simp add: parse_value.psimps)
  next
    case False
    then have len: "length (tl it) < length it" by (cases it) simp_all
    show ?thesis
      using 1 False len
      by (cases "tok_type (hd it)") (simp_all add: parse_value.psimps parse_single_length)
  qed
next
  case (2 it val)
  then show ?case
    by (simp add: parseObject.psimps Let_def)
next
  case (3 it obj)
  show ?case
  proof (cases "processToken JsonTokenObjectStart True True it")
    case (Inl e)
    with 3(1) show ?thesis by (simp add: parse_object.psimps)
  next
    case (Inr p)
    obtain b it1 where p: "p = (b, it1)" by (cases p)
    from Inr p have it1: "it \<noteq> []" "it1 = tl it"
      using processToken_skip_must by blast+
    then have "length it1 \<le> length it" by simp
    moreover have "consumes it1 (parse_object_loop (b \<and> tok_type (hd it1) \<noteq> JsonTokenObjectStart) it1 obj)"
      using 3(2) Inr p by simp
    ultimately show ?thesis
      using 3(1) Inr p by (simp add: parse_object.psimps consumes_mono)
  qed
next
  case (4 go it obj)
  note dom = 4(1) and IHv = 4(2) and IHl = 4(3)
  show ?case
  proof (cases go)
    case False
    show ?thesis
    proof (cases "processToken JsonTokenObjectEnd True True it")
      case (Inl e)
      with dom False show ?thesis by (simp add: parse_object_loop.psimps)
    next
      case (Inr p)
      obtain b it1 where p: "p = (b, it1)" by (cases p)
      from Inr p have "it \<noteq> []" "it1 = tl it"
        using processToken_skip_must by blast+
      then have "length it1 < length it" by (cases it) simp_all
      with dom False Inr p show ?thesis by (simp add: parse_object_loop.psimps)
    qed
  next
    case True
    show ?thesis
    proof (cases "processToken JsonTokenString False True it")
      case (Inl e)
      with dom True show ?thesis by (simp add: parse_object_loop.psimps)
    next
      case s: (Inr p0)
      obtain b0 it0 where p0: "p0 = (b0, it0)" by (cases p0)
      from s p0 have it0: "it \<noteq> []" "it0 = it"
        using processToken_noskip_must by blast+
      show ?thesis
      proof (cases "processToken JsonTokenAssign True True (tl it0)")
        case (Inl e)
        with dom True s p0 show ?thesis by (simp add: parse_object_loop.psimps Let_def)
      next
        case a: (Inr p2)
        obtain b2 it2 where p2: "p2 = (b2, it2)" by (cases p2)
        from a p2 have it2: "tl it0 \<noteq> []" "it2 = tl (tl it0)"
          using processToken_skip_must by blast+
        have len2: "length it2 < length it"
          using it0 it2 by (cases it; cases "tl it") simp_all
        have cv: "consumes it2 (parse_value it2 JsonValue_default)"
          using IHv [OF True s p0 [symmetric] refl refl a p2 [symmetric]] .
        obtain val res where pv: "parse_value it2 JsonValue_default = (val, res)"
          by (cases "parse_value it2 JsonValue_default")
        show ?thesis
        proof (cases res)
          case (Inl e)
          with dom True s p0 a p2 pv show ?thesis
            by (simp add: parse_object_loop.psimps Let_def)
        next
          case v: (Inr it3)
          from cv pv v have len3: "length it3 < length it2" by simp
          show ?thesis
          proof (cases "object_find obj (tok_value (hd it0)) \<noteq> None")
            case True
            with dom \<open>go\<close> s p0 a p2 pv v show ?thesis
              by (simp add: parse_object_loop.psimps Let_def)
          next
            case nodup: False
            show ?thesis
            proof (cases "processToken JsonTokenNext True False it3")
              case (Inl e)
              with dom \<open>go\<close> s p0 a p2 pv v nodup show ?thesis
                by (simp add: parse_object_loop.psimps Let_def)
            next
              case n: (Inr p4)
              obtain go1 it4 where p4: "p4 = (go1, it4)" by (cases p4)
              from n p4 have "length it4 \<le> length it3"
                using processToken_length by blast
              with len3 len2 have len4: "length it4 \<le> length it" by simp
              have "consumes it4 (parse_object_loop go1 it4
                      (object_insert (tok_value (hd it0)) val obj))"
                using IHl [OF \<open>go\<close> s p0 [symmetric] refl refl a p2 [symmetric] _ v nodup refl n
                    p4 [symmetric], of val] pv by simp
              then have "consumes it (parse_object_loop go1 it4
                      (object_insert (tok_value (hd it0)) val obj))"
                using len4 by (rule consumes_mono)
              with dom \<open>go\<close> s p0 a p2 pv v nodup n p4 show ?thesis
                by (simp add: parse_object_loop.psimps Let_def)
            qed
          qed
        qed
      qed
    qed
  qed
next
  case (5 it val)
  note dom = 5(1) and IH = 5(2)
  show ?case
  proof (cases "processToken JsonTokenArrayStart True True it")
    case (Inl e)
    with dom show ?thesis by (simp add: parseArray.psimps Let_def)
  next
    case (Inr p)
    obtain b it1 where p: "p = (b, it1)" by (cases p)
    from Inr p have it1: "it \<noteq> []" "it1 = tl it"
      using processToken_skip_must by blast+
    then have "length it1 \<le> length it" by simp
    moreover have "consumes it1 (parseArray_loop (b \<and> tok_type (hd it1) \<noteq> JsonTokenArrayStart) it1
        (getArray (setType VArray val)))"
      using IH [OF refl Inr p [symmetric]] .
    ultimately show ?thesis
      using dom Inr p by (simp add: parseArray.psimps Let_def consumes_mono)
  qed
next
  case (6 go it arr)
  note dom = 6(1) and IHv = 6(2) and IHl = 6(3)
  show ?case
  proof (cases go)
    case False
    show ?thesis
    proof (cases "processToken JsonTokenArrayEnd True True it")
      case (Inl e)
      with dom False show ?thesis by (simp add: parseArray_loop.psimps)
    next
      case (Inr p)
      obtain b it1 where p: "p = (b, it1)" by (cases p)
      from Inr p have "it \<noteq> []" "it1 = tl it"
        using processToken_skip_must by blast+
      then have "length it1 < length it" by (cases it) simp_all
      with dom False Inr p show ?thesis by (simp add: parseArray_loop.psimps)
    qed
  next
    case True
    have cv: "consumes it (parse_value it JsonValue_default)"
      using IHv [OF True] .
    obtain val res where pv: "parse_value it JsonValue_default = (val, res)"
      by (cases "parse_value it JsonValue_default")
    show ?thesis
    proof (cases res)
      case (Inl e)
      with dom True pv show ?thesis by (simp add: parseArray_loop.psimps)
    next
      case v: (Inr it1)
      from cv pv v have len1: "length it1 < length it" by simp
      show ?thesis
      proof (cases "processToken JsonTokenNext True False it1")
        case (Inl e)
        with dom True pv v show ?thesis by (simp add: parseArray_loop.psimps Let_def)
      next
        case n: (Inr p2)
        obtain go1 it2 where p2: "p2 = (go1, it2)" by (cases p2)
        from n p2 have "length it2 \<le> length it1"
          using processToken_length by blast
        with len1 have len2: "length it2 \<le> length it" by simp
        have "consumes it2 (parseArray_loop go1 it2 (pushBack val arr))"
          using IHl [OF True pv [symmetric] v refl n p2 [symmetric]] .
        then have "consumes it (parseArray_loop go1 it2 (pushBack val arr))"
          using len2 by (rule consumes_mono)
        with dom True pv v n p2 show ?thesis
          by (simp add: parseArray_loop.psimps Let_def)
      qed
    qed
  qed
qed

termination parse_value
proof (relation "measure parse_measure", goal_cases)
  case 1
  show ?case by simp
next
  case (2 it val x)
  show ?case by (simp add: parse_measure_def)
next
  case (3 it val x)
  show ?case by (simp add: parse_measure_def)
next
  case (4 it val x)
  show ?case by (simp add: parse_measure_def)
next
  case (5 it obj b x y)
  then show ?case
    using processToken_skip_must [of JsonTokenObjectStart it x y]
    by (cases it) (simp_all add: parse_measure_def)
next
  case (6 go it obj b x y xa xb ba xc ya)
  then show ?case
    using processToken_noskip_must [of JsonTokenString it x y]
      processToken_skip_must [of JsonTokenAssign xb xc ya]
    by (cases it; cases "tl it") (simp_all add: parse_measure_def)
next
  case (7 go it obj b x y xa xb ba xc ya xd yb bb xe bc xf yc)
  have "consumes ya (parse_value ya JsonValue_default)"
    using 7(14) by (rule parse_dom_consumes)
  with 7(8,9) have "length bb < length ya"
    by (metis consumes_Inr)
  moreover have "length yc \<le> length bb"
    using 7(12,13) processToken_length by metis
  moreover have "length ya \<le> length it"
    using 7 processToken_noskip_must [of JsonTokenString it x y]
      processToken_skip_must [of JsonTokenAssign xb xc ya]
    by (cases it; cases "tl it") simp_all
  ultimately show ?case by (simp add: parse_measure_def)
next
  case (8 it val x b xa y)
  then show ?case
    using processToken_skip_must [of JsonTokenArrayStart it xa y]
    by (cases it) (simp_all add: parse_measure_def)
next
  case (9 go it arr)
  show ?case by (simp add: parse_measure_def)
next
  case (10 go it arr x y b xa ba xb ya)
  have "consumes it (parse_value it JsonValue_default)"
    using 10(7) by (rule parse_dom_consumes)
  with 10(2,3) have "length b < length it"
    by (metis consumes_Inr)
  moreover have "length ya \<le> length b"
    using 10(5,6) processToken_length by metis
  ultimately show ?case by (simp add: parse_measure_def)
qed

declare parse_value.simps [simp del] parseObject.simps [simp del] parse_object.simps [simp del]
  parse_object_loop.simps [simp del] parseArray.simps [simp del] parseArray_loop.simps [simp del]

subsection \<open>The entry point\<close>

text \<open>
  \<^verbatim>\<open>JsonReader::read(text, value)\<close>: scan, then parse into \<^verbatim>\<open>value\<close>. The result is
  \<open>None\<close> when \<^verbatim>\<open>scan\<close> does not return; otherwise it is the value as \<^verbatim>\<open>read\<close> leaves
  it, with the exception thrown, if any. Tokens after the first value are not looked at.
\<close>

definition JsonReader_read :: "string \<Rightarrow> JsonValue \<Rightarrow> (JsonValue \<times> error option) option" where
  "JsonReader_read text val =
     (case scan (JsonReader_init text) of
        None \<Rightarrow> None
      | Some (Inl e) \<Rightarrow> Some (val, Some e)
      | Some (Inr reader) \<Rightarrow>
          (case parse_value (tokens reader) val of
             (v, Inl e) \<Rightarrow> Some (v, Some e)
           | (v, Inr it) \<Rightarrow> Some (v, None)))"

section \<open>The serializer\<close>

text \<open>
  \<^verbatim>\<open>base::to_string\<close> is not part of the JSON core; the writer calls it at four numeric
  types. It is a parameter of the writer here, a function on the sum of the four types.
\<close>

datatype number =
  IntNumber "32 word" | DoubleNumber rat | Int64Number "64 word" | Uint64Number "64 word"

text \<open>
  Modelled from the spec: \<^verbatim>\<open>base::escape_json_string\<close>, which is not part of the JSON
  core. The spec (4.4) has a string written "with all JSON-significant characters escaped
  (quote, backslash, control characters) per standard JSON string-escaping rules"; the
  control characters are taken to be the five with a two-character escape
  (\<^verbatim>\<open>\b \f \n \r \t\<close>), and every other character is copied.
\<close>

fun escape_json_string :: "string \<Rightarrow> string" where
  "escape_json_string [] = []"
| "escape_json_string (c # cs) =
     (if c = dquote then [backslash, dquote]
      else if c = backslash then [backslash, backslash]
      else if c = CHR 0x08 then [backslash, CHR ''b'']
      else if c = CHR 0x0C then [backslash, CHR ''f'']
      else if c = CHR 0x0A then [backslash, CHR ''n'']
      else if c = CHR 0x0D then [backslash, CHR ''r'']
      else if c = CHR 0x09 then [backslash, CHR ''t'']
      else [c]) @ escape_json_string cs"

record JsonWriter =
  w_output :: string
  w_depth :: nat

definition JsonWriter_init :: JsonWriter where
  "JsonWriter_init = \<lparr>w_output = [], w_depth = 0\<rparr>"

definition emit :: "string \<Rightarrow> JsonWriter \<Rightarrow> JsonWriter" where
  "emit str w = w\<lparr>w_output := w_output w @ str\<rparr>"

text \<open>\<^verbatim>\<open>_output += std::string(_depth, '\t')\<close>\<close>

definition emit_indent :: "JsonWriter \<Rightarrow> JsonWriter" where
  "emit_indent w = emit (replicate (w_depth w) (CHR 0x09)) w"

definition write_string :: "string \<Rightarrow> JsonWriter \<Rightarrow> JsonWriter" where
  "write_string val w = emit [dquote] (emit (escape_json_string val) (emit [dquote] w))"

text \<open>
  \<open>write_value\<close>, \<open>write_object\<close> and \<open>write_array\<close> are the overloads of
  \<^verbatim>\<open>JsonWriter::write\<close>; \<open>write_members\<close> and \<open>write_elements\<close> are their \<^verbatim>\<open>for\<close> loops
  from the iterator's position on. \<^verbatim>\<open>it != finalIter\<close> holds unless the iterator is at the
  last entry.
\<close>

fun write_value :: "(number \<Rightarrow> string) \<Rightarrow> JsonValue \<Rightarrow> JsonWriter \<Rightarrow> JsonWriter"
  and write_object :: "(number \<Rightarrow> string) \<Rightarrow> JsonObject \<Rightarrow> JsonWriter \<Rightarrow> JsonWriter"
  and write_members :: "(number \<Rightarrow> string) \<Rightarrow> (string \<times> JsonValue) list \<Rightarrow> JsonWriter \<Rightarrow> JsonWriter"
  and write_array :: "(number \<Rightarrow> string) \<Rightarrow> JsonArray \<Rightarrow> JsonWriter \<Rightarrow> JsonWriter"
  and write_elements :: "(number \<Rightarrow> string) \<Rightarrow> JsonValue list \<Rightarrow> JsonWriter \<Rightarrow> JsonWriter"
where
  "write_value to_string (JsonValue d i u b s ob ar t) w =
     (let val = JsonValue d i u b s ob ar t in
      case getType val of
        VInt \<Rightarrow> emit (to_string (IntNumber (getInt val))) w
      | VBoolean \<Rightarrow> emit (if getBool val then ''true'' else ''false'') w
      | VString \<Rightarrow> write_string (getString val) w
      | VDouble \<Rightarrow> emit (to_string (DoubleNumber (getDouble val))) w
      | VInt64 \<Rightarrow> emit (to_string (Int64Number (getInt64 val))) w
      | VUint64 \<Rightarrow> emit (to_string (Uint64Number (getUint64 val))) w
      | VObject \<Rightarrow> write_object to_string ob w
      | VArray \<Rightarrow> write_array to_string ar w
      | VEmpty \<Rightarrow> emit ''null'' w)"
| "write_object to_string (JsonObject data) w =
     (let w1 = emit ''{'' w;
          w2 = w1\<lparr>w_depth := w_depth w1 + 1\<rparr>;
          w3 = (if data \<noteq> [] then emit [CHR 0x0A] w2 else w2);
          w4 = write_members to_string data w3;
          w5 = w4\<lparr>w_depth := w_depth w4 - 1\<rparr>
      in emit ''}'' (emit_indent w5))"
| "write_members to_string [] w = w"
| "write_members to_string ((key, val) # rest) w =
     (let w1 = emit_indent w;
          w2 = write_string key w1;
          w3 = emit '' : '' w2;
          w4 = write_value to_string val w3;
          w5 = (if rest \<noteq> [] then emit '','' w4 else w4)
      in write_members to_string rest (emit [CHR 0x0A] w5))"
| "write_array to_string (JsonArray data) w =
     (let w1 = emit ''['' w;
          w2 = w1\<lparr>w_depth := w_depth w1 + 1\<rparr>;
          w3 = (if data \<noteq> [] then emit [CHR 0x0A] w2 else w2);
          w4 = write_elements to_string data w3;
          w5 = w4\<lparr>w_depth := w_depth w4 - 1\<rparr>
      in emit '']'' (emit_indent w5))"
| "write_elements to_string [] w = w"
| "write_elements to_string (val # rest) w =
     (let w1 = emit_indent w;
          w2 = write_value to_string val w1;
          w3 = (if rest \<noteq> [] then emit '','' w2 else w2)
      in write_elements to_string rest (emit [CHR 0x0A] w3))"

text \<open>\<^verbatim>\<open>JsonWriter::write(text, value)\<close>: the text written by a fresh writer.\<close>

definition JsonWriter_write :: "(number \<Rightarrow> string) \<Rightarrow> JsonValue \<Rightarrow> string" where
  "JsonWriter_write to_string val = w_output (write_value to_string val JsonWriter_init)"

section \<open>Definitions for the properties\<close>

subsection \<open>The reader at a position of the text\<close>

text \<open>\<open>reader_at pre rest tk\<close> is the reader in the text \<open>pre @ rest\<close>, after \<open>pre\<close>.\<close>

definition reader_at :: "string \<Rightarrow> string \<Rightarrow> JsonToken list \<Rightarrow> JsonReader" where
  "reader_at pre rest tk = \<lparr>jsonText = pre @ rest, actualPos = length pre, tokens = tk\<rparr>"

subsection \<open>Quoted strings\<close>

text \<open>
  The escapes that \<open>getJsonString\<close> recognizes, as the spec lists them (4.2): the
  character after the backslash and the character it stands for.
\<close>

definition recognized_escapes :: "(char \<times> char) list" where
  "recognized_escapes =
     [(CHR ''/'', CHR ''/''), (dquote, dquote), (backslash, backslash),
      (CHR ''b'', CHR 0x08), (CHR ''f'', CHR 0x0C), (CHR ''n'', CHR 0x0A),
      (CHR ''r'', CHR 0x0D), (CHR ''t'', CHR 0x09)]"

definition unescape :: "char \<Rightarrow> char option" where
  "unescape e = map_of recognized_escapes e"

text \<open>
  What the loop of \<open>getJsonString\<close> computes, on the text from the position on: the string
  read, and the text left, which starts with the closing quote unless the text has ended.
\<close>

fun string_body :: "string \<Rightarrow> string \<Rightarrow> error + (string \<times> string)" where
  "string_body [] str = Inr (str, [])"
| "string_body [c] str = (if c = dquote then Inr (str, [c]) else Inr (str @ [c], []))"
| "string_body (c # e # rest) str =
     (if c = dquote then Inr (str, c # e # rest)
      else if c = backslash then
        (case unescape e of
           Some x \<Rightarrow> string_body rest (str @ [x])
         | None \<Rightarrow> Inl (ParserException (''Unrecognized escape sequence: '' @ [backslash, e])))
      else string_body (e # rest) (str @ [c]))"

definition plain :: "string \<Rightarrow> bool" where
  "plain p = (dquote \<notin> set p \<and> backslash \<notin> set p)"

text \<open>
  The text \<^verbatim>\<open>"a\nb\"c"\<close> (nine characters, with two escapes) and the string it denotes
  (five characters, with a line feed and a quote).
\<close>

definition escape_example_text :: string where
  "escape_example_text =
     [dquote, CHR ''a'', backslash, CHR ''n'', CHR ''b'', backslash, dquote, CHR ''c'', dquote]"

definition escape_example_payload :: string where
  "escape_example_payload = [CHR ''a'', CHR 0x0A, CHR ''b'', dquote, CHR ''c'']"

subsection \<open>The text with a duplicate member\<close>

text \<open>The text \<^verbatim>\<open>{"a":1,"a":2}\<close>.\<close>

definition dup_text :: string where
  "dup_text = ''{'' @ [dquote] @ ''a'' @ [dquote] @ '':1,'' @ [dquote] @ ''a'' @ [dquote] @ '':2}''"

subsection \<open>The text and the tokens of a value\<close>

text \<open>
  The text that the writer appends for a value at a depth, as a function of the value:
  \<open>write_text\<close> below shows that the writer computes it.
\<close>

abbreviation tab :: char where "tab \<equiv> CHR 0x09"
abbreviation newline :: char where "newline \<equiv> CHR 0x0A"




definition ends_number :: "string \<Rightarrow> bool" where
  "ends_number rest = (case rest of [] \<Rightarrow> True | c # cs \<Rightarrow> c \<notin> numericChars)"

text \<open>A text of white space only, as \<open>eatWhitespace\<close> skips it.\<close>

definition all_ws :: "string \<Rightarrow> bool" where
  "all_ws s = list_all isWhiteSpace s"


text \<open>
  What reading the written text yields: a value built from the default value, with the tag
  and the payload of the tag. A \<^verbatim>\<open>VDouble\<close> leaf without a fractional part comes back
  with the tag \<^verbatim>\<open>VInt\<close>; \<^verbatim>\<open>VInt64\<close> and \<^verbatim>\<open>VUint64\<close> leaves come back with the tag \<^verbatim>\<open>VInt\<close>
  and their number in \<^verbatim>\<open>_double\<close>.
\<close>

fun reproduced :: "JsonValue \<Rightarrow> JsonValue"
  and reproduced_members :: "(string \<times> JsonValue) list \<Rightarrow> (string \<times> JsonValue) list"
  and reproduced_elements :: "JsonValue list \<Rightarrow> JsonValue list"
where
  "reproduced (JsonValue x i u b s (JsonObject od) (JsonArray ad) t) =
     (case t of
        VInt \<Rightarrow> setNumber (of_int (sint (double_to_int x))) (setType VInt JsonValue_default)
      | VBoolean \<Rightarrow> setType VBoolean (setBool b JsonValue_default)
      | VString \<Rightarrow> setType VString (setString s JsonValue_default)
      | VDouble \<Rightarrow>
          setNumber x (setType (if fst (modf x) = 0 then VInt else VDouble) JsonValue_default)
      | VInt64 \<Rightarrow> setNumber (of_int (sint i)) (setType VInt JsonValue_default)
      | VUint64 \<Rightarrow> setNumber (of_int (uint u)) (setType VInt JsonValue_default)
      | VObject \<Rightarrow>
          setObject (JsonObject (reproduced_members od)) (setType VObject JsonValue_default)
      | VArray \<Rightarrow>
          setArray (JsonArray (reproduced_elements ad)) (setType VArray JsonValue_default)
      | VEmpty \<Rightarrow> setType VEmpty JsonValue_default)"
| "reproduced_members [] = []"
| "reproduced_members ((k, v) # rest) = (k, reproduced v) # reproduced_members rest"
| "reproduced_elements [] = []"
| "reproduced_elements (v # rest) = reproduced v # reproduced_elements rest"








section \<open>Properties of the value model\<close>

text \<open>
  C6. Every typed constructor sets the payload and the matching tag, so that the typed
  getter of the constructed tag returns the argument. This holds for the constructors from
  \<^verbatim>\<open>bool\<close>, \<^verbatim>\<open>int64_t\<close>, \<^verbatim>\<open>uint64_t\<close>, \<^verbatim>\<open>double\<close>, \<^verbatim>\<open>std::string\<close>, \<^verbatim>\<open>JsonObject\<close>
  and \<^verbatim>\<open>JsonArray\<close>. The constructor from \<^verbatim>\<open>int\<close> sets the tag \<^verbatim>\<open>VInt\<close> and drops its
  argument: \<^verbatim>\<open>getInt\<close> returns 0 on the value constructed from any \<open>x\<close>, so from 5.
\<close>

theorem int_constructor_drops_argument:
  "getType (JsonValue_int x) = VInt \<and> getInt (JsonValue_int x) = 0
   \<and> getInt (JsonValue_int 5) \<noteq> 5
   \<and> getType (JsonValue_bool b) = VBoolean \<and> getBool (JsonValue_bool b) = b
   \<and> getType (JsonValue_int64 i) = VInt64 \<and> getInt64 (JsonValue_int64 i) = i
   \<and> getType (JsonValue_uint64 u) = VUint64 \<and> getUint64 (JsonValue_uint64 u) = u
   \<and> getType (JsonValue_double d) = VDouble \<and> getDouble (JsonValue_double d) = d
   \<and> getType (JsonValue_string j1 j2 s) = VString \<and> getString (JsonValue_string j1 j2 s) = s
   \<and> getType (JsonValue_object ob) = VObject \<and> getObject (JsonValue_object ob) = ob
   \<and> getType (JsonValue_array ar) = VArray \<and> getArray (JsonValue_array ar) = ar"
  by (simp add: getType_def getInt_def getBool_def getInt64_def getUint64_def getDouble_def
      getString_def getObject_def getArray_def double_to_int_def
      JsonValue_int_def JsonValue_bool_def JsonValue_int64_def JsonValue_uint64_def
      JsonValue_double_def JsonValue_string_def JsonValue_object_def JsonValue_array_def)

text \<open>
  C7. For every value \<open>v\<close>, each conversion operator throws \<^verbatim>\<open>std::bad_cast\<close> if and only
  if the tag of \<open>v\<close> differs from the operator's target type, and returns what the typed
  getter returns otherwise. The typed getters have no failure: whatever the tag, each
  returns its stored field (\<^verbatim>\<open>getInt\<close> the field \<^verbatim>\<open>_double\<close>, converted to \<^verbatim>\<open>int\<close>).
\<close>

theorem conversion_operators_check_tag:
  "(operator_int v = Inl BadCast \<longleftrightarrow> getType v \<noteq> VInt)
   \<and> (getType v = VInt \<longrightarrow> operator_int v = Inr (double_to_int (m_double v)))
   \<and> (operator_double v = Inl BadCast \<longleftrightarrow> getType v \<noteq> VDouble)
   \<and> (getType v = VDouble \<longrightarrow> operator_double v = Inr (m_double v))
   \<and> (operator_bool v = Inl BadCast \<longleftrightarrow> getType v \<noteq> VBoolean)
   \<and> (getType v = VBoolean \<longrightarrow> operator_bool v = Inr (m_bool v))
   \<and> (operator_int64 v = Inl BadCast \<longleftrightarrow> getType v \<noteq> VInt64)
   \<and> (getType v = VInt64 \<longrightarrow> operator_int64 v = Inr (m_integer64 v))
   \<and> (operator_uint64 v = Inl BadCast \<longleftrightarrow> getType v \<noteq> VUint64)
   \<and> (getType v = VUint64 \<longrightarrow> operator_uint64 v = Inr (m_uint64 v))
   \<and> (operator_string v = Inl BadCast \<longleftrightarrow> getType v \<noteq> VString)
   \<and> (getType v = VString \<longrightarrow> operator_string v = Inr (m_string v))
   \<and> (operator_JsonObject v = Inl BadCast \<longleftrightarrow> getType v \<noteq> VObject)
   \<and> (getType v = VObject \<longrightarrow> operator_JsonObject v = Inr (m_object v))
   \<and> (operator_JsonArray v = Inl BadCast \<longleftrightarrow> getType v \<noteq> VArray)
   \<and> (getType v = VArray \<longrightarrow> operator_JsonArray v = Inr (m_array v))
   \<and> getInt v = double_to_int (m_double v) \<and> getDouble v = m_double v
   \<and> getBool v = m_bool v \<and> getInt64 v = m_integer64 v \<and> getUint64 v = m_uint64 v
   \<and> getString v = m_string v \<and> getObject v = m_object v \<and> getArray v = m_array v"
  by (simp add: operator_int_def operator_double_def operator_bool_def operator_int64_def
      operator_uint64_def operator_string_def operator_JsonObject_def operator_JsonArray_def
      getInt_def getBool_def getInt64_def getUint64_def getDouble_def
      getString_def getObject_def getArray_def)

theorem conversion_operators_check_tag_witness:
  "getType (JsonValue_double (7 / 2)) = VDouble
   \<and> operator_double (JsonValue_double (7 / 2)) = Inr (7 / 2)
   \<and> getType (JsonValue_double (7 / 2)) \<noteq> VInt
   \<and> operator_int (JsonValue_double (7 / 2)) = Inl BadCast
   \<and> getInt (JsonValue_double (7 / 2)) = 3
   \<and> operator_bool (JsonValue_double (7 / 2)) = Inl BadCast
   \<and> getBool (JsonValue_double (7 / 2)) = False"
proof -
  have "\<lfloor>7 / 2 :: rat\<rfloor> = 3"
    by (simp add: floor_eq_iff)
  then show ?thesis
    using conversion_operators_check_tag [of "JsonValue_double (7 / 2)"]
    by (simp add: JsonValue_double_def getType_def double_to_int_def)
qed

text \<open>
  C8. For every array \<open>a\<close> and index \<open>pos\<close>, \<^verbatim>\<open>a.at(pos)\<close> throws \<^verbatim>\<open>std::out_of_range\<close>
  when \<open>pos\<close> is not a valid index, and returns the element otherwise. The explicit bound
  check of \<^verbatim>\<open>JsonArray::at\<close> is the origin of the exception only for \<open>pos > size()\<close>: it
  lets \<open>pos = size()\<close> through, where the exception comes from the container's \<^verbatim>\<open>at\<close>.
\<close>

theorem array_at_out_of_range:
  "(array_size a \<le> unat pos \<longrightarrow> (\<exists>what. array_at a pos = Inl (OutOfRange what)))
   \<and> (unat pos < array_size a \<longrightarrow> array_at a pos = Inr (a_data a ! unat pos))
   \<and> (array_at a pos = Inl (OutOfRange (IndexOutOfRange pos)) \<longleftrightarrow> array_size a < unat pos)
   \<and> (unat pos = array_size a \<longrightarrow> array_at a pos = Inl (OutOfRange ContainerAt))"
  by (auto simp: array_at_def vector_at_def array_size_def)

theorem array_at_out_of_range_witness:
  "unat (3 :: 64 word) = array_size (JsonArray [JsonValue_bool True, JsonValue_default, JsonValue_default])
   \<and> array_at (JsonArray [JsonValue_bool True, JsonValue_default, JsonValue_default]) 3
       = Inl (OutOfRange ContainerAt)
   \<and> array_at (JsonArray [JsonValue_bool True, JsonValue_default, JsonValue_default]) 4
       = Inl (OutOfRange (IndexOutOfRange 4))
   \<and> array_at (JsonArray [JsonValue_bool True, JsonValue_default, JsonValue_default]) 0
       = Inr (JsonValue_bool True)"
  using array_at_out_of_range [of "JsonArray [JsonValue_bool True, JsonValue_default, JsonValue_default]" 3]
    array_at_out_of_range [of "JsonArray [JsonValue_bool True, JsonValue_default, JsonValue_default]" 4]
    array_at_out_of_range [of "JsonArray [JsonValue_bool True, JsonValue_default, JsonValue_default]" 0]
  by (simp add: array_size_def)

section \<open>Properties of the tokenizer and the parser\<close>

subsection \<open>The reader at a position of the text: lemmas\<close>

lemma peek_at: "actualPos r = length pre \<Longrightarrow> jsonText r = pre @ c # rest \<Longrightarrow> peek r = c"
  by (simp add: peek_def)

lemma eos_at: "actualPos r = length pre \<Longrightarrow> jsonText r = pre @ c # rest \<Longrightarrow> \<not> eos r"
  by (simp add: eos_def)

lemma moveAhead_at:
  "actualPos r = length pre \<Longrightarrow> jsonText r = pre @ c # rest
     \<Longrightarrow> moveAhead r = r\<lparr>actualPos := Suc (length pre)\<rparr>"
  by (simp add: moveAhead_def)

lemma peek_end: "actualPos r = length (jsonText r) \<Longrightarrow> peek r = CHR 0x00"
  by (simp add: peek_def)

subsection \<open>White space\<close>

lemma eatWhitespace_all:
  "jsonText r = pre @ ws \<Longrightarrow> actualPos r = length pre \<Longrightarrow> \<forall>c \<in> set ws. isWhiteSpace c
     \<Longrightarrow> eatWhitespace r = r\<lparr>actualPos := length (jsonText r)\<rparr>"
proof (induction ws arbitrary: pre r)
  case Nil
  then have "peek r = CHR 0x00" by (simp add: peek_end)
  then have "eatWhitespace r = r"
    by (subst eatWhitespace.simps) (simp add: isWhiteSpace_def)
  with Nil show ?case by simp
next
  case (Cons c ws)
  then have pk: "peek r = c" and mv: "moveAhead r = r\<lparr>actualPos := Suc (length pre)\<rparr>"
    by (simp_all add: peek_at moveAhead_at)
  have "eatWhitespace (moveAhead r) = (moveAhead r)\<lparr>actualPos := length (jsonText (moveAhead r))\<rparr>"
    using Cons.prems by (intro Cons.IH [of _ "pre @ [c]"]) (simp_all add: mv)
  moreover have "eatWhitespace r = eatWhitespace (moveAhead r)"
    using pk Cons.prems by (subst eatWhitespace.simps) simp
  ultimately show ?case by (simp add: mv)
qed

lemma scan_step_at_end:
  "actualPos r = length (jsonText r) \<Longrightarrow> scan_step r = Inr (push_token JsonTokenEmpty [] r)"
proof -
  assume e: "actualPos r = length (jsonText r)"
  then have pk: "peek r = CHR 0x00" by (rule peek_end)
  then have "eatWhitespace r = r"
    by (subst eatWhitespace.simps) (simp add: isWhiteSpace_def)
  with pk show ?thesis by (simp add: scan_step_def)
qed

lemma scan_whitespace:
  assumes "ws \<noteq> []" "\<forall>c \<in> set ws. isWhiteSpace c"
  shows "scan (JsonReader_init ws) =
    Some (Inr \<lparr>jsonText = ws, actualPos = length ws, tokens = [mkToken JsonTokenEmpty []]\<rparr>)"
proof -
  let ?r = "JsonReader_init ws"
  let ?r1 = "?r\<lparr>actualPos := length ws\<rparr>"
  have ew: "eatWhitespace ?r = ?r1"
    using eatWhitespace_all [of ?r "[]" ws] assms by (simp add: JsonReader_init_def)
  have "peek ?r1 = CHR 0x00" by (simp add: peek_def JsonReader_init_def)
  then have step: "scan_step ?r = Inr (push_token JsonTokenEmpty [] ?r1)"
    by (simp add: scan_step_def ew)
  have "\<not> eos ?r" using assms by (simp add: eos_def JsonReader_init_def)
  then have "scan ?r = scan (push_token JsonTokenEmpty [] ?r1)"
    by (subst scan.simps) (simp add: step)
  also have "\<dots> = Some (Inr (push_token JsonTokenEmpty [] ?r1))"
    by (subst scan.simps) (simp add: eos_def push_token_def JsonReader_init_def)
  finally show ?thesis by (simp add: push_token_def JsonReader_init_def)
qed

subsection \<open>Quoted strings: lemmas\<close>

lemma getJsonString_loop_body:
  "jsonText r = pre @ rest \<Longrightarrow> actualPos r = length pre \<Longrightarrow>
   getJsonString_loop r str =
     (case string_body rest str of
        Inl e \<Rightarrow> Inl e
      | Inr (s, rest') \<Rightarrow> Inr (s, r\<lparr>actualPos := length (jsonText r) - length rest'\<rparr>))"
proof (induction rest str arbitrary: pre r rule: string_body.induct)
  case (1 str)
  then have "eos r" by (simp add: eos_def)
  then show ?case
    using 1 by (subst getJsonString_loop.simps) simp
next
  case (2 c str)
  note pk = peek_at [OF 2(2) 2(1)] and ne = eos_at [OF 2(2) 2(1)]
    and mv = moveAhead_at [OF 2(2) 2(1)]
  show ?case
  proof (cases "c = dquote")
    case True
    with pk 2 show ?thesis
      by (subst getJsonString_loop.simps) simp
  next
    case False
    have e1: "eos (r\<lparr>actualPos := Suc (length pre)\<rparr>)"
      using 2 by (simp add: eos_def)
    then have "getJsonString_loop (r\<lparr>actualPos := Suc (length pre)\<rparr>) (str @ [c])
       = Inr (str @ [c], r\<lparr>actualPos := Suc (length pre)\<rparr>)"
      by (subst getJsonString_loop.simps) simp
    with False pk ne mv e1 2 show ?thesis
      by (subst getJsonString_loop.simps) (simp add: Let_def)
  qed
next
  case (3 c e rest str)
  note pk = peek_at [OF 3(4) 3(3)] and ne = eos_at [OF 3(4) 3(3)]
    and mv = moveAhead_at [OF 3(4) 3(3)]
  let ?r1 = "r\<lparr>actualPos := Suc (length pre)\<rparr>"
  have t1: "jsonText ?r1 = (pre @ [c]) @ e # rest" and p1: "actualPos ?r1 = length (pre @ [c])"
    using 3(3) by simp_all
  note pk1 = peek_at [OF p1 t1] and ne1 = eos_at [OF p1 t1] and mv1 = moveAhead_at [OF p1 t1]
  let ?r2 = "r\<lparr>actualPos := Suc (Suc (length pre))\<rparr>"
  have t2: "jsonText ?r2 = (pre @ [c, e]) @ rest" and p2: "actualPos ?r2 = length (pre @ [c, e])"
    using 3(3) by simp_all
  show ?case
  proof (cases "c = dquote")
    case True
    with pk 3 show ?thesis
      by (subst getJsonString_loop.simps) simp
  next
    case nq: False
    show ?thesis
    proof (cases "c = backslash")
      case False
      have "getJsonString_loop ?r1 (str @ [c]) =
        (case string_body (e # rest) (str @ [c]) of
          Inl e \<Rightarrow> Inl e
        | Inr (s, rest') \<Rightarrow> Inr (s, ?r1\<lparr>actualPos := length (jsonText ?r1) - length rest'\<rparr>))"
        using nq False by (intro "3.IH"(2) [OF _ _ t1 p1]) simp_all
      with nq False pk ne mv show ?thesis
        by (subst getJsonString_loop.simps) (simp add: Let_def split: sum.splits prod.splits)
    next
      case bs: True
      show ?thesis
      proof (cases "unescape e")
        case None
        then show ?thesis
          using nq bs pk ne mv pk1 ne1 mv1
          by (subst getJsonString_loop.simps)
             (simp add: Let_def unescape_def recognized_escapes_def split: if_splits)
      next
        case (Some x)
        have IH: "getJsonString_loop ?r2 (str @ [x]) =
          (case string_body rest (str @ [x]) of
            Inl e \<Rightarrow> Inl e
          | Inr (s, rest') \<Rightarrow> Inr (s, ?r2\<lparr>actualPos := length (jsonText ?r2) - length rest'\<rparr>))"
          using nq bs Some by (intro "3.IH"(1) [OF _ _ _ t2 p2]) simp_all
        have "getJsonString_loop r str = getJsonString_loop ?r2 (str @ [x])"
          using nq bs pk ne mv pk1 ne1 mv1 Some
          by (subst getJsonString_loop.simps)
             (auto simp add: Let_def unescape_def recognized_escapes_def split: if_splits)
        with IH Some nq bs show ?thesis by (simp split: sum.splits prod.splits)
      qed
    qed
  qed
qed

lemma string_body_suffix: "string_body rest str = Inr (s, rest') \<Longrightarrow> \<exists>xs. rest = xs @ rest'"
proof (induction rest str rule: string_body.induct)
  case (1 str)
  then show ?case by simp
next
  case (2 c str)
  then show ?case by (auto split: if_splits)
next
  case (3 c e rest str)
  show ?case
  proof (cases "c = dquote")
    case True
    with 3(3) show ?thesis by simp
  next
    case nq: False
    show ?thesis
    proof (cases "c = backslash")
      case True
      with nq 3(3) obtain x where x: "unescape e = Some x" "string_body rest (str @ [x]) = Inr (s, rest')"
        by (auto split: option.splits)
      with "3.IH"(1) nq True obtain xs where "rest = xs @ rest'" by blast
      then have "c # e # rest = (c # e # xs) @ rest'" by simp
      then show ?thesis by blast
    next
      case False
      with nq 3(3) have "string_body (e # rest) (str @ [c]) = Inr (s, rest')" by simp
      with "3.IH"(2) nq False obtain xs where "e # rest = xs @ rest'" by blast
      then have "c # e # rest = (c # xs) @ rest'" by simp
      then show ?thesis by blast
    qed
  qed
qed

lemma getJsonString_err:
  assumes "string_body rest [] = Inl e"
  shows "getJsonString (reader_at pre (q # rest) tk) = Inl e"
proof -
  let ?r = "reader_at pre (q # rest) tk"
  let ?r1 = "?r\<lparr>actualPos := Suc (length pre)\<rparr>"
  have mv: "moveAhead ?r = ?r1"
    by (simp add: moveAhead_def reader_at_def)
  have "getJsonString_loop ?r1 [] = Inl e"
    using getJsonString_loop_body [of ?r1 "pre @ [q]" rest "[]"] assms
    by (simp add: reader_at_def)
  with mv show ?thesis by (simp add: getJsonString_def)
qed

lemma getJsonString_eof:
  assumes "string_body rest [] = Inr (s, [])"
  shows "getJsonString (reader_at pre (q # rest) tk)
           = Inl (ParserException (''Expected: '' @ [dquote, CHR '' '']))"
proof -
  let ?r = "reader_at pre (q # rest) tk"
  let ?r1 = "?r\<lparr>actualPos := Suc (length pre)\<rparr>"
  let ?r2 = "?r\<lparr>actualPos := Suc (length pre + length rest)\<rparr>"
  have mv: "moveAhead ?r = ?r1"
    by (simp add: moveAhead_def reader_at_def)
  have loop: "getJsonString_loop ?r1 [] = Inr (s, ?r2)"
    using getJsonString_loop_body [of ?r1 "pre @ [q]" rest "[]"] assms
    by (simp add: reader_at_def)
  have "eos ?r2" by (simp add: eos_def reader_at_def)
  then have "match [dquote] ?r2 = (False, ?r2)"
    by (simp add: match_def)
  with loop mv show ?thesis by (simp add: getJsonString_def)
qed

lemma getJsonString_ok:
  assumes "string_body (xs @ dquote # post) [] = Inr (s, dquote # post)"
  shows "getJsonString (reader_at pre (q # xs @ dquote # post) tk)
           = Inr (s, reader_at (pre @ q # xs @ [dquote]) post tk)"
proof -
  let ?r = "reader_at pre (q # xs @ dquote # post) tk"
  let ?r1 = "?r\<lparr>actualPos := Suc (length pre)\<rparr>"
  let ?r2 = "?r\<lparr>actualPos := Suc (length pre + length xs)\<rparr>"
  let ?r3 = "?r\<lparr>actualPos := Suc (Suc (length pre + length xs))\<rparr>"
  have mv: "moveAhead ?r = ?r1"
    by (simp add: moveAhead_def reader_at_def)
  have loop: "getJsonString_loop ?r1 [] = Inr (s, ?r2)"
    using getJsonString_loop_body [of ?r1 "pre @ [q]" "xs @ dquote # post" "[]"] assms
    by (simp add: reader_at_def)
  have t2: "jsonText ?r2 = (pre @ q # xs) @ dquote # post" and p2: "actualPos ?r2 = length (pre @ q # xs)"
    by (simp_all add: reader_at_def)
  have "match [dquote] ?r2 = (True, ?r3)"
    using peek_at [OF p2 t2] eos_at [OF p2 t2] moveAhead_at [OF p2 t2]
    by (simp add: match_def)
  moreover have "?r3 = reader_at (pre @ q # xs @ [dquote]) post tk"
    by (simp add: reader_at_def)
  ultimately show ?thesis
    using loop mv by (simp add: getJsonString_def)
qed

lemma string_body_plain: "plain p \<Longrightarrow> string_body (p @ rest) str = string_body rest (str @ p)"
proof (induction p arbitrary: str)
  case Nil
  then show ?case by simp
next
  case (Cons c p)
  then have c: "c \<noteq> dquote" "c \<noteq> backslash" and p: "plain p"
    by (auto simp: plain_def)
  show ?case
  proof (cases "p @ rest")
    case Nil
    with c show ?thesis by simp
  next
    case (Cons e rest2)
    with c have "string_body (c # p @ rest) str = string_body (p @ rest) (str @ [c])"
      by simp
    with Cons.IH [OF p] show ?thesis by simp
  qed
qed

lemma string_body_escape:
  "string_body (escape_json_string s @ dquote # post) str = Inr (str @ s, dquote # post)"
proof (induction s arbitrary: str)
  case Nil
  show ?case by (cases post) simp_all
next
  case (Cons c s)
  obtain e rest2 where r2: "escape_json_string s @ dquote # post = e # rest2"
    by (cases "escape_json_string s @ dquote # post") simp_all
  consider (special) "c \<in> {dquote, backslash, CHR 0x08, CHR 0x0C, CHR 0x0A, CHR 0x0D, CHR 0x09}"
    | (other) "c \<notin> {dquote, backslash, CHR 0x08, CHR 0x0C, CHR 0x0A, CHR 0x0D, CHR 0x09}"
    by blast
  then show ?case
  proof cases
    case special
    then show ?thesis
      using Cons.IH [of "str @ [c]"]
      by (auto simp: unescape_def recognized_escapes_def)
  next
    case other
    then have "string_body (escape_json_string (c # s) @ dquote # post) str
        = string_body (e # rest2) (str @ [c])"
      using r2 by simp
    with Cons.IH [of "str @ [c]"] r2 show ?thesis by simp
  qed
qed

lemma string_body_no_quote:
  "dquote \<notin> set rest \<Longrightarrow> string_body rest str = Inr (s, rest') \<Longrightarrow> rest' = []"
  by (induction rest str rule: string_body.induct) (auto split: if_splits option.splits)

subsection \<open>Numbers and booleans\<close>

lemma getJsonBoolean_never_throws:
  "getJsonBoolean r = Inr (getJsonBoolean_loop (if peek r = CHR ''f'' then 5 else 4) r [])"
  by (cases "getJsonBoolean_loop (if peek r = CHR ''f'' then 5 else 4) r []")
     (auto simp: getJsonBoolean_def Let_def)

lemma modf_zero_iff: "fst (modf x) = 0 \<longleftrightarrow> x \<in> \<int>"
proof
  assume "fst (modf x) = 0"
  then have "x = of_int (if 0 \<le> x then \<lfloor>x\<rfloor> else \<lceil>x\<rceil>)"
    by (simp add: modf_def Let_def)
  then show "x \<in> \<int>" by (metis Ints_of_int)
next
  assume "x \<in> \<int>"
  then show "fst (modf x) = 0"
    by (auto simp: modf_def Let_def elim!: Ints_cases)
qed

lemma getType_setNumber: "getType (setNumber x v) = getType v"
  by (cases v) (simp add: getType_def)

lemma getType_setType: "getType (setType t v) = t"
  by (cases v) (simp add: getType_def)

lemma getDouble_setNumber: "getDouble (setNumber x v) = x"
  by (cases v) (simp add: getDouble_def)

section \<open>Properties of reading and writing\<close>

text \<open>
  C1. Parsing \<^verbatim>\<open>{}\<close> and \<^verbatim>\<open>[]\<close> should give an object and an array of size 0, which
  are written back as \<^verbatim>\<open>{}\<close> and \<^verbatim>\<open>[]\<close>. The writer does write the empty object and the
  empty array so. The reader rejects both texts: after the opening bracket the loop is
  entered unless the next token is another opening bracket, so the closing bracket is read
  as a member name (as an element) and is an unexpected token.
\<close>

theorem empty_containers_rejected:
  "JsonReader_read ''{}'' JsonValue_default =
     Some (setType VObject JsonValue_default, Some (ParserException ''Unexpected token: }''))
   \<and> JsonReader_read ''[]'' JsonValue_default =
     Some (setType VArray JsonValue_default, Some (ParserException ''Unexpected token: ]''))
   \<and> object_size JsonObject_default = 0
   \<and> JsonWriter_write to_string (JsonValue_object JsonObject_default) = ''{}''
   \<and> array_size JsonArray_default = 0
   \<and> JsonWriter_write to_string (JsonValue_array JsonArray_default) = ''[]''"
  by code_simp

text \<open>
  C3. Scanning a boolean token whose text is neither \<^verbatim>\<open>true\<close> nor \<^verbatim>\<open>false\<close> should fail.
  \<open>getJsonBoolean\<close> never throws: its test asks the text to be equal to both words. The
  input \<^verbatim>\<open>tru\<close> is scanned as a boolean token and parsed as the boolean \<^verbatim>\<open>false\<close>.
\<close>

theorem incomplete_boolean_accepted:
  "getJsonBoolean r = Inr (getJsonBoolean_loop (if peek r = CHR ''f'' then 5 else 4) r [])
   \<and> scan (JsonReader_init ''tru'') =
        Some (Inr \<lparr>jsonText = ''tru'', actualPos = 3, tokens = [mkToken JsonTokenBoolean ''tru'']\<rparr>)
   \<and> JsonReader_read ''tru'' JsonValue_default = Some (JsonValue_bool False, None)"
proof -
  have "scan (JsonReader_init ''tru'') =
        Some (Inr \<lparr>jsonText = ''tru'', actualPos = 3, tokens = [mkToken JsonTokenBoolean ''tru'']\<rparr>)"
    by code_simp
  moreover have "JsonReader_read ''tru'' JsonValue_default = Some (JsonValue_bool False, None)"
    by code_simp
  ultimately show ?thesis
    by (simp add: getJsonBoolean_never_throws)
qed




text \<open>
  C5. When the object loop is at a member whose key is already in the object being built,
  parsing fails and the object is left as it was, so the earlier value of the key is not
  overwritten; when the member's value parses, the exception is "Duplicate member: " with
  the key. Parsing \<^verbatim>\<open>{"a":1,"a":2}\<close> fails with "Duplicate member: a", and the object
  read so far holds the value 1 for \<^verbatim>\<open>a\<close>.
\<close>

theorem duplicate_member_rejected:
  assumes "tok_type key = JsonTokenString" and "tok_type sep = JsonTokenAssign"
    and "object_find obj (tok_value key) \<noteq> None"
  shows "fst (parse_object_loop True (key # sep # it) obj) = obj
    \<and> isl (snd (parse_object_loop True (key # sep # it) obj))
    \<and> (parse_value it JsonValue_default = (val, Inr it') \<longrightarrow>
         parse_object_loop True (key # sep # it) obj =
           (obj, Inl (ParserException (''Duplicate member: '' @ tok_value key))))
    \<and> JsonReader_read dup_text JsonValue_default =
         Some (JsonValue_object (JsonObject [(''a'', setNumber 1 (setType VInt JsonValue_default))]),
               Some (ParserException ''Duplicate member: a''))"
proof -
  have example: "JsonReader_read dup_text JsonValue_default =
         Some (JsonValue_object (JsonObject [(''a'', setNumber 1 (setType VInt JsonValue_default))]),
               Some (ParserException ''Duplicate member: a''))"
    by code_simp
  obtain v res where pv: "parse_value it JsonValue_default = (v, res)"
    by (cases "parse_value it JsonValue_default")
  have loop: "parse_object_loop True (key # sep # it) obj =
      (case res of
         Inl e \<Rightarrow> (obj, Inl e)
       | Inr it3 \<Rightarrow> (obj, Inl (ParserException (''Duplicate member: '' @ tok_value key))))"
    using assms pv
    by (subst parse_object_loop.simps) (simp add: processToken_def Let_def split: sum.splits)
  then have "fst (parse_object_loop True (key # sep # it) obj) = obj"
    and "isl (snd (parse_object_loop True (key # sep # it) obj))"
    by (simp_all split: sum.splits)
  moreover have "parse_object_loop True (key # sep # it) obj =
           (obj, Inl (ParserException (''Duplicate member: '' @ tok_value key)))"
    if "parse_value it JsonValue_default = (val, Inr it')"
    using loop pv that by auto
  ultimately show ?thesis
    using example by blast
qed

theorem duplicate_member_rejected_witness:
  "tok_type (mkToken JsonTokenString ''a'') = JsonTokenString
   \<and> tok_type (mkToken JsonTokenAssign '':'') = JsonTokenAssign
   \<and> object_find (JsonObject [(''a'', setNumber 1 (setType VInt JsonValue_default))])
         (tok_value (mkToken JsonTokenString ''a'')) \<noteq> None
   \<and> parse_value [mkToken JsonTokenNumber ''2'', mkToken JsonTokenObjectEnd ''}''] JsonValue_default
       = (setNumber 2 (setType VInt JsonValue_default), Inr [mkToken JsonTokenObjectEnd ''}''])
   \<and> parse_object_loop True
        [mkToken JsonTokenString ''a'', mkToken JsonTokenAssign '':'',
         mkToken JsonTokenNumber ''2'', mkToken JsonTokenObjectEnd ''}'']
        (JsonObject [(''a'', setNumber 1 (setType VInt JsonValue_default))])
       = (JsonObject [(''a'', setNumber 1 (setType VInt JsonValue_default))],
          Inl (ParserException ''Duplicate member: a''))"
proof -
  have h1: "tok_type (mkToken JsonTokenString ''a'') = JsonTokenString"
    and h2: "tok_type (mkToken JsonTokenAssign '':'') = JsonTokenAssign"
    by (simp_all add: mkToken_def)
  have h3: "object_find (JsonObject [(''a'', setNumber 1 (setType VInt JsonValue_default))])
         (tok_value (mkToken JsonTokenString ''a'')) \<noteq> None"
    by (simp add: object_find_def mkToken_def)
  have h4: "parse_value [mkToken JsonTokenNumber ''2'', mkToken JsonTokenObjectEnd ''}''] JsonValue_default
       = (setNumber 2 (setType VInt JsonValue_default), Inr [mkToken JsonTokenObjectEnd ''}''])"
    by code_simp
  show ?thesis
    using duplicate_member_rejected [OF h1 h2 h3,
        of "[mkToken JsonTokenNumber ''2'', mkToken JsonTokenObjectEnd ''}'']"
           "setNumber 2 (setType VInt JsonValue_default)" "[mkToken JsonTokenObjectEnd ''}'']"]
      h1 h2 h3 h4
    by (simp add: mkToken_def)
qed

text \<open>
  C9. Scanning a quoted string: the text that the writer produces for a string \<open>s\<close> is
  read back as \<open>s\<close>; each recognized escape (\<^verbatim>\<open>\/ \" \\ \b \f \n \r \t\<close>) is read as its
  character; a backslash before any other character fails with "Unrecognized escape
  sequence"; a string without a closing quote fails, with "Expected: " and the quote when
  the string has no backslash. Parsing \<^verbatim>\<open>"a\nb\"c"\<close> yields the string with a line feed
  and a quote, which is written back as the same text, both escaped again.
\<close>

theorem string_escapes:
  "getJsonString (reader_at pre (dquote # escape_json_string s @ dquote # post) tk)
     = Inr (s, reader_at (pre @ dquote # escape_json_string s @ [dquote]) post tk)
   \<and> (plain p \<and> map_of recognized_escapes e = Some c \<longrightarrow>
        getJsonString (reader_at pre (dquote # p @ backslash # e # dquote # post) tk)
          = Inr (p @ [c], reader_at (pre @ dquote # p @ [backslash, e, dquote]) post tk))
   \<and> (plain p \<and> map_of recognized_escapes e = None \<longrightarrow>
        getJsonString (reader_at pre (dquote # p @ backslash # e # rest) tk)
          = Inl (ParserException (''Unrecognized escape sequence: '' @ [backslash, e])))
   \<and> (dquote \<notin> set body \<longrightarrow> isl (getJsonString (reader_at pre (dquote # body) tk)))
   \<and> (plain body \<longrightarrow>
        getJsonString (reader_at pre (dquote # body) tk)
          = Inl (ParserException (''Expected: '' @ [dquote, CHR '' ''])))
   \<and> JsonReader_read escape_example_text JsonValue_default
        = Some (setType VString (setString escape_example_payload JsonValue_default), None)
   \<and> JsonWriter_write to_string (setType VString (setString escape_example_payload JsonValue_default))
        = escape_example_text"
proof -
  have c1: "getJsonString (reader_at pre (dquote # escape_json_string s @ dquote # post) tk)
     = Inr (s, reader_at (pre @ dquote # escape_json_string s @ [dquote]) post tk)"
    using getJsonString_ok [of "escape_json_string s" post s pre dquote tk]
      string_body_escape [of s post "[]"] by simp
  have c2: "getJsonString (reader_at pre (dquote # p @ backslash # e # dquote # post) tk)
          = Inr (p @ [c], reader_at (pre @ dquote # p @ [backslash, e, dquote]) post tk)"
    if "plain p" "map_of recognized_escapes e = Some c"
  proof -
    have "string_body ((p @ [backslash, e]) @ dquote # post) [] = Inr (p @ [c], dquote # post)"
      using that string_body_plain [of p "backslash # e # dquote # post" "[]"]
      by (cases post) (simp_all add: unescape_def)
    from getJsonString_ok [OF this, of pre dquote tk] show ?thesis by simp
  qed
  have c3: "getJsonString (reader_at pre (dquote # p @ backslash # e # rest) tk)
          = Inl (ParserException (''Unrecognized escape sequence: '' @ [backslash, e]))"
    if "plain p" "map_of recognized_escapes e = None"
  proof -
    have "string_body (p @ backslash # e # rest) []
            = Inl (ParserException (''Unrecognized escape sequence: '' @ [backslash, e]))"
      using that string_body_plain [of p "backslash # e # rest" "[]"]
      by (simp add: unescape_def)
    then show ?thesis by (rule getJsonString_err)
  qed
  have c4: "isl (getJsonString (reader_at pre (dquote # body) tk))" if "dquote \<notin> set body"
  proof (cases "string_body body []")
    case (Inl err)
    then show ?thesis by (simp add: getJsonString_err)
  next
    case (Inr res)
    obtain str rest' where res: "res = (str, rest')" by (cases res)
    with Inr that have "rest' = []" using string_body_no_quote by blast
    with Inr res show ?thesis by (simp add: getJsonString_eof)
  qed
  have c5: "getJsonString (reader_at pre (dquote # body) tk)
          = Inl (ParserException (''Expected: '' @ [dquote, CHR '' '']))" if "plain body"
  proof -
    have "string_body body [] = Inr (body, [])"
      using that string_body_plain [of body "[]" "[]"] by simp
    then show ?thesis by (rule getJsonString_eof)
  qed
  have c6: "JsonReader_read escape_example_text JsonValue_default
        = Some (setType VString (setString escape_example_payload JsonValue_default), None)"
    by code_simp
  have c7: "JsonWriter_write to_string (setType VString (setString escape_example_payload JsonValue_default))
        = escape_example_text"
    by code_simp
  from c1 c2 c3 c4 c5 c6 c7 show ?thesis by blast
qed

theorem string_escapes_witness:
  "plain ''ab'' \<and> map_of recognized_escapes (CHR ''t'') = Some (CHR 0x09)
   \<and> getJsonString (reader_at ''['' (dquote # ''ab'' @ backslash # CHR ''t'' # dquote # '']'') [])
        = Inr (''ab'' @ [CHR 0x09], reader_at (''['' @ dquote # ''ab'' @ [backslash, CHR ''t'', dquote]) '']'' [])
   \<and> map_of recognized_escapes (CHR ''u'') = None
   \<and> getJsonString (reader_at ''['' (dquote # ''ab'' @ backslash # CHR ''u'' # ''0041'') [])
        = Inl (ParserException (''Unrecognized escape sequence: '' @ [backslash, CHR ''u'']))
   \<and> dquote \<notin> set ''ab''
   \<and> getJsonString (reader_at ''['' (dquote # ''ab'') [])
        = Inl (ParserException (''Expected: '' @ [dquote, CHR '' '']))
   \<and> getJsonString (reader_at [] (dquote # escape_json_string escape_example_payload @ dquote # []) [])
        = Inr (escape_example_payload, reader_at escape_example_text [] [])"
proof -
  have h1: "plain ''ab''" by (simp add: plain_def)
  have h2: "map_of recognized_escapes (CHR ''t'') = Some (CHR 0x09)"
    by (simp add: recognized_escapes_def)
  have h3: "map_of recognized_escapes (CHR ''u'') = None"
    by (simp add: recognized_escapes_def)
  have h4: "dquote \<notin> set ''ab''" by simp
  have h5: "dquote # escape_json_string escape_example_payload @ [dquote] = escape_example_text"
    by (simp add: escape_example_payload_def escape_example_text_def)
  show ?thesis
    using string_escapes [of "''[''" "''ab''" "'']''" "[]" "''ab''" "CHR ''t''" "CHR 0x09" "''0041''" "''ab''"]
      string_escapes [of "''[''" "''ab''" "'']''" "[]" "''ab''" "CHR ''u''" "CHR 0x09" "''0041''" "''ab''"]
      string_escapes [of "[]" escape_example_payload "[]" "[]" "''ab''" "CHR ''u''" "CHR 0x09" "''0041''" "''ab''"]
      h1 h2 h3 h4 h5
    by simp
qed

text \<open>
  C10. Reading the empty text fails with "Unexpected json data end.". Reading a non-empty
  text of white space only succeeds with a value of tag \<^verbatim>\<open>VEmpty\<close>: the scanner skips the
  white space, finds the end of the text and appends one token of type
  \<^verbatim>\<open>JsonTokenEmpty\<close> with empty text.
\<close>

theorem read_empty_and_whitespace:
  "JsonReader_read [] v = Some (v, Some (ParserException ''Unexpected json data end.''))
   \<and> (ws \<noteq> [] \<and> (\<forall>c \<in> set ws. isWhiteSpace c) \<longrightarrow>
        scan (JsonReader_init ws) =
          Some (Inr \<lparr>jsonText = ws, actualPos = length ws, tokens = [mkToken JsonTokenEmpty []]\<rparr>)
        \<and> JsonReader_read ws v = Some (setType VEmpty v, None)
        \<and> getType (setType VEmpty v) = VEmpty)"
proof -
  have "scan (JsonReader_init []) = Some (Inr (JsonReader_init []))"
    by (subst scan.simps) (simp add: eos_def JsonReader_init_def)
  then have empty: "JsonReader_read [] v = Some (v, Some (ParserException ''Unexpected json data end.''))"
    by (simp add: JsonReader_read_def parse_value.simps JsonReader_init_def)
  have ty: "getType (setType VEmpty v) = VEmpty"
    by (cases v) (simp add: getType_def)
  have "parse_value [mkToken JsonTokenEmpty []] v = (setType VEmpty v, Inr [])"
    by (simp add: parse_value.simps mkToken_def)
  then show ?thesis
    using empty ty by (simp add: JsonReader_read_def scan_whitespace)
qed

theorem read_empty_and_whitespace_witness:
  "[CHR '' '', CHR 0x0A] \<noteq> [] \<and> isWhiteSpace (CHR '' '') \<and> isWhiteSpace (CHR 0x0A)
   \<and> JsonReader_read [CHR '' '', CHR 0x0A] JsonValue_default = Some (JsonValue_default, None)"
  using read_empty_and_whitespace [of JsonValue_default "[CHR '' '', CHR 0x0A]"]
  by (simp add: isWhiteSpace_def JsonValue_default_def)

section \<open>Writing, then reading\<close>

subsection \<open>The writer computes the text\<close>


lemma w_depth_emit [simp]: "w_depth (emit a w) = w_depth w"
  by (simp add: emit_def)

lemma emit_Nil [simp]: "emit [] w = w"
  by (simp add: emit_def)



subsection \<open>Scanning the text\<close>

lemma peek_reader_at [simp]: "peek (reader_at pre (c # rest) tk) = c"
  by (simp add: peek_def reader_at_def)

lemma eos_reader_at [simp]: "eos (reader_at pre rest tk) = (rest = [])"
  by (simp add: eos_def reader_at_def)

lemma moveAhead_reader_at [simp]:
  "moveAhead (reader_at pre (c # rest) tk) = reader_at (pre @ [c]) rest tk"
  by (simp add: moveAhead_def reader_at_def)

lemma push_token_reader_at [simp]:
  "push_token ty val (reader_at pre rest tk) = reader_at pre rest (tk @ [mkToken ty val])"
  by (simp add: push_token_def reader_at_def)





lemma scan_one:
  assumes "scan_step (reader_at pre (c # cs @ rest) tk) = Inr (reader_at (pre @ c # cs) rest (tk @ [tok]))"
  shows "scan (reader_at pre (c # cs @ rest) tk) = scan (reader_at (pre @ c # cs) rest (tk @ [tok]))"
  using assms by (subst scan.simps) simp


lemma isWhiteSpace_simps [simp]:
  "isWhiteSpace tab" "isWhiteSpace newline" "isWhiteSpace (CHR '' '')"
  "\<not> isWhiteSpace (CHR ''{'')" "\<not> isWhiteSpace (CHR ''}'')" "\<not> isWhiteSpace (CHR ''['')"
  "\<not> isWhiteSpace (CHR '']'')" "\<not> isWhiteSpace (CHR '','')" "\<not> isWhiteSpace (CHR '':'')"
  "\<not> isWhiteSpace dquote" "\<not> isWhiteSpace (CHR ''t'')" "\<not> isWhiteSpace (CHR ''f'')"
  "\<not> isWhiteSpace (CHR ''n'')"
  by (simp_all add: isWhiteSpace_def)








lemma all_ws_simps [simp]:
  "all_ws []" "all_ws [newline]" "all_ws '' ''" "all_ws (replicate d tab)"
  by (simp_all add: all_ws_def list_all_iff)

lemma ends_number_simps [simp]:
  "ends_number []" "ends_number (CHR '','' # cs)" "ends_number (newline # cs)"
  by (simp_all add: ends_number_def numericChars_def)


subsection \<open>Parsing the tokens\<close>

lemma map_fst_reproduced_members: "map fst (reproduced_members kvs) = map fst kvs"
  by (induction kvs) auto




lemma tok_simps [simp]:
  "tok_type (mkToken ty val) = ty" "tok_value (mkToken ty val) = val"
  by (simp_all add: mkToken_def)

lemma modf_of_int [simp]: "fst (modf (of_int z)) = 0"
  by (simp add: modf_zero_iff)

lemma modf_signed [simp]: "fst (modf (signed w)) = 0"
proof -
  have "(signed w :: rat) = of_int (sint w)" by simp
  then show ?thesis by (metis modf_of_int)
qed

lemma modf_unsigned [simp]: "fst (modf (unsigned w)) = 0"
proof -
  have "(unsigned w :: rat) = of_int (uint w)" by simp
  then show ?thesis by (metis modf_of_int)
qed


lemma parseNumber_tok:
  "parseNumber (mkToken JsonTokenNumber t # rest) JsonValue_default =
     (setNumber (stream_extract_double t)
        (setType (if fst (modf (stream_extract_double t)) = 0 then VInt else VDouble) JsonValue_default), rest)"
  by (simp add: Let_def)








text \<open>
  Whatever \<^verbatim>\<open>base::to_string\<close> writes, no value is read back with the tag \<^verbatim>\<open>VDouble\<close>
  and a number without a fractional part.
\<close>

lemma getType_setObject: "getType (setObject ob v) = getType v"
  by (cases v) (simp add: getType_def)

lemma getType_setArray: "getType (setArray ar v) = getType v"
  by (cases v) (simp add: getType_def)

lemma getType_setString: "getType (setString s v) = getType v"
  by (cases v) (simp add: getType_def)

lemma getType_setBool: "getType (setBool b v) = getType v"
  by (cases v) (simp add: getType_def)

lemma parse_value_double_has_fraction:
  assumes "parse_value it JsonValue_default = (v', res)" and "getType v' = VDouble"
  shows "fst (modf (getDouble v')) \<noteq> 0"
proof (cases it)
  case Nil
  with assms show ?thesis
    by (auto simp add: parse_value.simps JsonValue_default_def getType_def)
next
  case (Cons tok rest)
  show ?thesis
  proof (cases "tok_type tok")
    case JsonTokenNumber
    with assms Cons show ?thesis
      by (auto simp add: parse_value.simps Let_def getType_setNumber getType_setType
          getDouble_setNumber split: if_splits)
  next
    case JsonTokenObjectStart
    with assms Cons show ?thesis
      by (auto simp add: parse_value.simps parseObject.simps Let_def getType_setObject
          getType_setType split: prod.splits)
  next
    case JsonTokenArrayStart
    with assms Cons show ?thesis
      by (auto simp add: parse_value.simps parseArray.simps Let_def getType_setArray
          getType_setType split: prod.splits sum.splits)
  qed (use assms Cons in \<open>auto simp add: parse_value.simps Let_def getType_setType
          getType_setString getType_setBool JsonValue_default_def getType_def\<close>)
qed

lemma double_without_fraction_not_reproduced:
  assumes "JsonReader_read (JsonWriter_write ts v) JsonValue_default = Some (v', e)"
    and "getType v' = VDouble"
  shows "fst (modf (getDouble v')) \<noteq> 0"
proof (cases "scan (JsonReader_init (JsonWriter_write ts v))")
  case None
  with assms show ?thesis by (simp add: JsonReader_read_def)
next
  case (Some res)
  show ?thesis
  proof (cases res)
    case (Inl err)
    with Some assms show ?thesis
      by (auto simp add: JsonReader_read_def JsonValue_default_def getType_def)
  next
    case (Inr r)
    obtain v2 res2 where pv: "parse_value (tokens r) JsonValue_default = (v2, res2)"
      by (cases "parse_value (tokens r) JsonValue_default")
    with Some Inr assms have "v2 = v'"
      by (auto simp add: JsonReader_read_def split: sum.splits)
    with pv assms(2) show ?thesis
      using parse_value_double_has_fraction by blast
  qed
qed




end
